theory Spec2Isabelle
  imports Main "HOL-Library.AList" "HOL-Library.Word"
begin

section \<open>JavaScript values\<close>

text \<open>
  Strings are lists of characters. \<open>String.prototype.toLowerCase\<close> is modelled on the
  ASCII letters (code units 65..90 go to 97..122); every other character is left as it is.
  Instants are integers: milliseconds since the epoch, as \<open>Date.now()\<close> gives them. An
  ISO-8601 text made by \<open>new Date(t).toISOString()\<close> and read back by \<open>new Date(text)\<close>
  is the instant \<open>t\<close> again, so the stored ISO texts are modelled by their instants.
\<close>

definition toLowerCase_char :: "char \<Rightarrow> char" where
  "toLowerCase_char c =
     (let n = (of_char c :: nat) in if 65 \<le> n \<and> n \<le> 90 then char_of (n + 32) else c)"

definition toLowerCase :: "string \<Rightarrow> string" where
  "toLowerCase s = map toLowerCase_char s"

text \<open>Truthiness of a nullable string and of a nullable number (\<open>!x\<close> in the source).\<close>

definition truthy_string :: "string option \<Rightarrow> bool" where
  "truthy_string v = (case v of None \<Rightarrow> False | Some s \<Rightarrow> s \<noteq> [])"

definition truthy_number :: "int option \<Rightarrow> bool" where
  "truthy_number v = (case v of None \<Rightarrow> False | Some n \<Rightarrow> n \<noteq> 0)"

text \<open>A nullable number as an operand of arithmetic: null counts as 0.\<close>

definition ToNumber :: "int option \<Rightarrow> int" where
  "ToNumber v = (case v of None \<Rightarrow> 0 | Some n \<Rightarrow> n)"

text \<open>
  \<open>Number.prototype.toString(radix)\<close> on an integer, as the template literals and
  \<open>toString(36)\<close> of the source use it. The source calls it with the radix 10 and 36 only;
  the test \<open>b < 2\<close> stops the recursion for a radix that JavaScript refuses.
\<close>

definition digit_char :: "nat \<Rightarrow> char" where
  "digit_char d = ''0123456789abcdefghijklmnopqrstuvwxyz'' ! d"

function digits :: "nat \<Rightarrow> nat \<Rightarrow> string" where
  "digits b n =
     (if n < b \<or> b < 2 then [digit_char n] else digits b (n div b) @ [digit_char (n mod b)])"
  by pat_completeness auto
termination
  by (relation "measure snd") (auto intro: div_less_dividend)

declare digits.simps [simp del]

definition Number_toString :: "nat \<Rightarrow> int \<Rightarrow> string" where
  "Number_toString radix i =
     (if i < 0 then CHR ''-'' # digits radix (nat (- i)) else digits radix (nat i))"

section \<open>Stored records\<close>

text \<open>
  The objects the source stores and returns, one record each. The fields carry the source's
  names behind a prefix for the object they belong to (\<open>att\<close> attempt, \<open>od\<close> OTP data,
  \<open>p\<close> parent, \<open>s\<close> session, \<open>ev\<close> analytics event), since several objects share field
  names. A field that an object may lack, or that may hold null, is an option. A parent
  gets \<open>name\<close> and \<open>skippedProfileSetup\<close> from \<open>updateParentProfile\<close>; a session gets
  \<open>updatedAt\<close> from \<open>refreshSession\<close>.
\<close>

record attempt =
  att_otp :: string
  att_timestamp :: int
  att_success :: bool
  att_reason :: "string option"

record otp_data =
  od_email :: string
  od_attempts :: "attempt list"
  od_currentOTP :: "string option"
  od_otpGeneratedAt :: "int option"

record parent =
  p_email :: string
  p_createdAt :: int
  p_updatedAt :: int
  p_name :: "string option"
  p_skippedProfileSetup :: "bool option"

record session =
  s_accessToken :: string
  s_refreshToken :: string
  s_parentEmail :: string
  s_deviceFingerprint :: string
  s_createdAt :: int
  s_expiresAt :: int
  s_updatedAt :: "int option"

record event =
  ev_event :: string
  ev_email :: string
  ev_reason :: "string option"
  ev_timestamp :: int

section \<open>The world a call runs in\<close>

text \<open>
  \<open>AsyncStorage\<close> holds one JSON document per storage key. Each of the four keys
  (\<open>parents\<close>, \<open>sessions\<close>, \<open>otp_data\<close>, \<open>analytics\<close>) is a field, \<open>None\<close> while the key
  was never set. The objects under \<open>parents\<close> and \<open>otp_data\<close> are maps; the object under
  \<open>sessions\<close> is an association list in insertion order, because \<open>refreshSession\<close>
  searches \<open>Object.values\<close> of it (keys are taken to be ordinary own properties that
  are not written as integers, as the tokens and emails of the source are).
  \<open>available\<close> is False while the medium rejects every call (the \<open>catch\<close> branches of
  \<open>storageService\<close>).

  \<open>clock\<close> is the sequence of readings the coming calls of \<open>Date.now()\<close> and
  \<open>new Date()\<close> return. \<open>otp_draws\<close> is the sequence of values of
  \<open>Math.floor(100000 + Math.random() * 900000)\<close>, and \<open>suffix_draws\<close> the sequence of
  values of \<open>Math.random().toString(36).substr(2, 9)\<close>: both are floating-point
  expressions over the random source and are taken from the environment.
  \<open>navigator_userAgent\<close> and \<open>screen_size\<close> are None where the global is undefined;
  \<open>isDev\<close> is the value of the development test of \<open>startSignup\<close> (\<open>__DEV__\<close>,
  \<open>NODE_ENV\<close>, the host name).
\<close>

record async_storage =
  available :: bool
  parents_item :: "(string \<rightharpoonup> parent) option"
  sessions_item :: "(string \<times> session) list option"
  otp_data_item :: "(string \<rightharpoonup> otp_data) option"
  analytics_item :: "event list option"

record world =
  storage :: async_storage
  clock :: "nat \<Rightarrow> int"
  otp_draws :: "nat \<Rightarrow> nat"
  suffix_draws :: "nat \<Rightarrow> string"
  navigator_userAgent :: "string option"
  screen_size :: "(int \<times> int) option"
  isDev :: bool

definition Date_now :: "world \<Rightarrow> int \<times> world" where
  "Date_now w = (clock w 0, w\<lparr>clock := \<lambda>n. clock w (Suc n)\<rparr>)"

section \<open>storageService.js\<close>

text \<open>
  \<open>getItem\<close> returns null when the key is absent and also when the medium throws;
  \<open>setItem\<close> returns true after the write and false when the medium throws. The key is
  passed as the field it names.
\<close>

definition storageService_getItem :: "(async_storage \<Rightarrow> 'a option) \<Rightarrow> world \<Rightarrow> 'a option" where
  "storageService_getItem key w = (if available (storage w) then key (storage w) else None)"

definition storageService_setItem ::
  "(('a option \<Rightarrow> 'a option) \<Rightarrow> async_storage \<Rightarrow> async_storage) \<Rightarrow> 'a \<Rightarrow> world \<Rightarrow> bool \<times> world" where
  "storageService_setItem key_update v w =
     (if available (storage w)
      then (True, w\<lparr>storage := key_update (\<lambda>_. Some v) (storage w)\<rparr>)
      else (False, w))"

definition parentStorage_getAll :: "world \<Rightarrow> (string \<rightharpoonup> parent)" where
  "parentStorage_getAll w =
     (case storageService_getItem parents_item w of None \<Rightarrow> Map.empty | Some parents \<Rightarrow> parents)"

definition parentStorage_getByEmail :: "string \<Rightarrow> world \<Rightarrow> parent option" where
  "parentStorage_getByEmail email w = parentStorage_getAll w (toLowerCase email)"

definition parentStorage_save :: "parent \<Rightarrow> world \<Rightarrow> bool \<times> world" where
  "parentStorage_save parent w =
     (let parents = parentStorage_getAll w
      in storageService_setItem parents_item_update
           (parents(toLowerCase (p_email parent) \<mapsto> parent)) w)"

definition parentStorage_delete :: "string \<Rightarrow> world \<Rightarrow> bool \<times> world" where
  "parentStorage_delete email w =
     (let parents = parentStorage_getAll w
      in storageService_setItem parents_item_update (parents(toLowerCase email := None)) w)"

definition sessionStorage_getAll :: "world \<Rightarrow> (string \<times> session) list" where
  "sessionStorage_getAll w =
     (case storageService_getItem sessions_item w of None \<Rightarrow> [] | Some sessions \<Rightarrow> sessions)"

definition sessionStorage_getByToken :: "string \<Rightarrow> world \<Rightarrow> session option" where
  "sessionStorage_getByToken accessToken w = map_of (sessionStorage_getAll w) accessToken"

definition sessionStorage_save :: "session \<Rightarrow> world \<Rightarrow> bool \<times> world" where
  "sessionStorage_save session w =
     (let sessions = sessionStorage_getAll w
      in storageService_setItem sessions_item_update
           (AList.update (s_accessToken session) session sessions) w)"

definition sessionStorage_delete :: "string \<Rightarrow> world \<Rightarrow> bool \<times> world" where
  "sessionStorage_delete accessToken w =
     (let sessions = sessionStorage_getAll w
      in storageService_setItem sessions_item_update (AList.delete accessToken sessions) w)"

definition otpStorage_getAll :: "world \<Rightarrow> (string \<rightharpoonup> otp_data)" where
  "otpStorage_getAll w =
     (case storageService_getItem otp_data_item w of None \<Rightarrow> Map.empty | Some otpData \<Rightarrow> otpData)"

definition otpStorage_getByEmail :: "string \<Rightarrow> world \<Rightarrow> otp_data option" where
  "otpStorage_getByEmail email w = otpStorage_getAll w (toLowerCase email)"

definition otpStorage_save :: "string \<Rightarrow> otp_data \<Rightarrow> world \<Rightarrow> bool \<times> world" where
  "otpStorage_save email data w =
     (let otpData = otpStorage_getAll w
      in storageService_setItem otp_data_item_update (otpData(toLowerCase email \<mapsto> data)) w)"

definition otpStorage_delete :: "string \<Rightarrow> world \<Rightarrow> bool \<times> world" where
  "otpStorage_delete email w =
     (let otpData = otpStorage_getAll w
      in storageService_setItem otp_data_item_update (otpData(toLowerCase email := None)) w)"

definition analyticsStorage_getAll :: "world \<Rightarrow> event list" where
  "analyticsStorage_getAll w =
     (case storageService_getItem analytics_item w of None \<Rightarrow> [] | Some events \<Rightarrow> events)"

text \<open>
  \<open>addEvent\<close> takes the event without its timestamp (name, email, reason) and stamps it
  with a fresh clock reading.
\<close>

definition analyticsStorage_addEvent ::
  "string \<Rightarrow> string \<Rightarrow> string option \<Rightarrow> world \<Rightarrow> bool \<times> world" where
  "analyticsStorage_addEvent name email why w =
     (let events = analyticsStorage_getAll w;
          (stamp, w1) = Date_now w
      in storageService_setItem analytics_item_update
           (events @ [\<lparr>ev_event = name, ev_email = email, ev_reason = why, ev_timestamp = stamp\<rparr>])
           w1)"

section \<open>otpService.js\<close>

definition VALIDITY_MS :: int where
  "VALIDITY_MS = 10 * 60 * 1000"

definition MAX_ATTEMPTS :: nat where
  "MAX_ATTEMPTS = 5"

definition ATTEMPT_WINDOW_MS :: int where
  "ATTEMPT_WINDOW_MS = 60 * 60 * 1000"

definition generateOTP :: "world \<Rightarrow> string \<times> world" where
  "generateOTP w =
     (Number_toString 10 (int (otp_draws w 0)), w\<lparr>otp_draws := \<lambda>n. otp_draws w (Suc n)\<rparr>)"

definition getOTPData :: "string \<Rightarrow> world \<Rightarrow> otp_data" where
  "getOTPData email w =
     (case otpStorage_getByEmail email w of
        None \<Rightarrow> \<lparr>od_email = toLowerCase email, od_attempts = [],
                  od_currentOTP = None, od_otpGeneratedAt = None\<rparr>
      | Some data \<Rightarrow> data)"

definition cleanOldAttempts :: "attempt list \<Rightarrow> world \<Rightarrow> attempt list \<times> world" where
  "cleanOldAttempts attempts w =
     (let (now, w1) = Date_now w
      in (filter (\<lambda>attempt. now - att_timestamp attempt < ATTEMPT_WINDOW_MS) attempts, w1))"

definition hasExceededMaxAttempts :: "attempt list \<Rightarrow> world \<Rightarrow> bool \<times> world" where
  "hasExceededMaxAttempts attempts w =
     (let (recentAttempts, w1) = cleanOldAttempts attempts w
      in (MAX_ATTEMPTS \<le> length recentAttempts, w1))"

record generate_result =
  g_success :: bool
  g_error :: "string option"
  g_otp :: "string option"
  g_expiresAt :: "int option"

definition generateOTPForEmail :: "string \<Rightarrow> world \<Rightarrow> generate_result \<times> world" where
  "generateOTPForEmail email w =
     (let data = getOTPData email w;
          (exceeded, w1) = hasExceededMaxAttempts (od_attempts data) w
      in if exceeded
         then (\<lparr>g_success = False,
                g_error = Some ''Too many attempts. Please try again later.'',
                g_otp = None, g_expiresAt = None\<rparr>, w1)
         else
           (let (otp, w2) = generateOTP w1;
                (now, w3) = Date_now w2;
                data1 = data\<lparr>od_currentOTP := Some otp, od_otpGeneratedAt := Some now\<rparr>;
                (saved, w4) = otpStorage_save email data1 w3
            in (\<lparr>g_success = True, g_error = None, g_otp = Some otp,
                 g_expiresAt = Some (now + VALIDITY_MS)\<rparr>, w4)))"

record validation =
  v_valid :: bool
  v_error :: "string option"

definition validateOTP :: "string \<Rightarrow> string \<Rightarrow> world \<Rightarrow> validation \<times> world" where
  "validateOTP email inputOTP w =
     (let data = getOTPData email w
      in if \<not> truthy_string (od_currentOTP data) \<or> \<not> truthy_number (od_otpGeneratedAt data)
         then (\<lparr>v_valid = False, v_error = Some ''No OTP found. Please request a new one.''\<rparr>, w)
         else
           (let (now, w1) = Date_now w;
                isExpired = (now - ToNumber (od_otpGeneratedAt data) > VALIDITY_MS)
            in if isExpired
               then
                 (let data1 = data\<lparr>od_attempts := od_attempts data @
                        [\<lparr>att_otp = inputOTP, att_timestamp = now, att_success = False,
                          att_reason = Some ''expired''\<rparr>]\<rparr>;
                      (saved, w2) = otpStorage_save email data1 w1
                  in (\<lparr>v_valid = False, v_error = Some ''Code expired''\<rparr>, w2))
               else
                 (let (exceeded, w2) = hasExceededMaxAttempts (od_attempts data) w1
                  in if exceeded
                     then (\<lparr>v_valid = False, v_error = Some ''Too many attempts''\<rparr>, w2)
                     else
                       (let isValid = (od_currentOTP data = Some inputOTP);
                            data1 = data\<lparr>od_attempts := od_attempts data @
                              [\<lparr>att_otp = inputOTP, att_timestamp = now, att_success = isValid,
                                att_reason = (if isValid then None else Some ''invalid'')\<rparr>]\<rparr>;
                            data2 = (if isValid
                                     then data1\<lparr>od_currentOTP := None, od_otpGeneratedAt := None\<rparr>
                                     else data1);
                            (saved, w3) = otpStorage_save email data2 w2
                        in if \<not> isValid
                           then
                             (let (recentAttempts, w4) = cleanOldAttempts (od_attempts data2) w3
                              in if MAX_ATTEMPTS \<le> length recentAttempts
                                 then (\<lparr>v_valid = False, v_error = Some ''Too many attempts''\<rparr>, w4)
                                 else (\<lparr>v_valid = False, v_error = Some ''Invalid code''\<rparr>, w4))
                           else (\<lparr>v_valid = True, v_error = None\<rparr>, w3)))))"

definition getRemainingAttempts :: "string \<Rightarrow> world \<Rightarrow> int \<times> world" where
  "getRemainingAttempts email w =
     (let data = getOTPData email w;
          (recentAttempts, w1) = cleanOldAttempts (od_attempts data) w
      in (max 0 (int MAX_ATTEMPTS - int (length recentAttempts)), w1))"

section \<open>emailValidation.js\<close>

definition DISPOSABLE_DOMAINS :: "string list" where
  "DISPOSABLE_DOMAINS =
     [''10minutemail.com'', ''tempmail.com'', ''guerrillamail.com'', ''mailinator.com'',
      ''throwaway.email'', ''temp-mail.org'', ''getnada.com'', ''mohmal.com'',
      ''fakeinbox.com'', ''trashmail.com'', ''maildrop.cc'', ''yopmail.com'',
      ''sharklasers.com'', ''grr.la'', ''guerrillamailblock.com'', ''pokemail.net'',
      ''spam4.me'', ''bccto.me'', ''chitthi.in'', ''dispostable.com'', ''meltmail.com'',
      ''emailondeck.com'', ''spamgourmet.com'', ''mytrashmail.com'', ''tempinbox.co.uk'',
      ''mintemail.com'', ''melt.li'', ''33mail.com'', ''mailcatch.com'', ''spambox.us'']"

text \<open>\<open>String.prototype.trim\<close> and \<open>split\<close>, on ASCII white space and a one-character separator.\<close>

definition is_space :: "char \<Rightarrow> bool" where
  "is_space c = ((of_char c :: nat) \<in> {9, 10, 11, 12, 13, 32})"

definition trim :: "string \<Rightarrow> string" where
  "trim s = rev (dropWhile is_space (rev (dropWhile is_space s)))"

fun split_on :: "char \<Rightarrow> string \<Rightarrow> string list" where
  "split_on sep [] = [[]]"
| "split_on sep (c # cs) =
     (if c = sep then [] # split_on sep cs
      else (case split_on sep cs of [] \<Rightarrow> [[c]] | part # parts \<Rightarrow> (c # part) # parts))"

text \<open>
  \<open>strictEmailRegex\<close>, read as the language it accepts: one or more characters of the
  local class, an at sign, then labels separated by dots, each label of 1 to 63
  characters, alphanumeric at both ends and alphanumeric or a hyphen inside. No class
  holds the at sign, so the local part is the text before the first one.
\<close>

definition is_alnum :: "char \<Rightarrow> bool" where
  "is_alnum c =
     (let n = (of_char c :: nat)
      in (48 \<le> n \<and> n \<le> 57) \<or> (65 \<le> n \<and> n \<le> 90) \<or> (97 \<le> n \<and> n \<le> 122))"

definition local_char :: "char \<Rightarrow> bool" where
  "local_char c = (is_alnum c \<or> c \<in> set (''.!#$%&*+/=?^_{|}~-'' @ [CHR 0x27, CHR 0x60]))"

definition label_ok :: "string \<Rightarrow> bool" where
  "label_ok l =
     (l \<noteq> [] \<and> length l \<le> 63 \<and> is_alnum (hd l) \<and> is_alnum (last l) \<and>
      list_all (\<lambda>c. is_alnum c \<or> c = CHR ''-'') l)"

definition strictEmailRegex_test :: "string \<Rightarrow> bool" where
  "strictEmailRegex_test s =
     (let localPart = takeWhile (\<lambda>c. c \<noteq> CHR ''@'') s;
          rest = dropWhile (\<lambda>c. c \<noteq> CHR ''@'') s
      in localPart \<noteq> [] \<and> list_all local_char localPart \<and> rest \<noteq> [] \<and>
         list_all label_ok (split_on (CHR ''.'') (tl rest)))"

definition isValidEmailFormat :: "string \<Rightarrow> bool" where
  "isValidEmailFormat email = (email \<noteq> [] \<and> strictEmailRegex_test (trim email))"

definition isDisposableDomain :: "string \<Rightarrow> bool" where
  "isDisposableDomain email =
     (if email = [] then False
      else (case split_on (CHR ''@'') (toLowerCase email) of
              local_part # domain # others \<Rightarrow> domain \<noteq> [] \<and> domain \<in> set DISPOSABLE_DOMAINS
            | _ \<Rightarrow> False))"

definition validateEmail :: "string \<Rightarrow> validation" where
  "validateEmail email =
     (if email = [] \<or> trim email = []
      then \<lparr>v_valid = False, v_error = Some ''Email is required''\<rparr>
      else
        (let trimmedEmail = toLowerCase (trim email)
         in if \<not> isValidEmailFormat trimmedEmail
            then \<lparr>v_valid = False, v_error = Some ''Invalid email format''\<rparr>
            else if isDisposableDomain trimmedEmail
            then \<lparr>v_valid = False, v_error = Some ''Disposable email domains are not allowed''\<rparr>
            else \<lparr>v_valid = True, v_error = None\<rparr>))"

section \<open>authService.js\<close>

text \<open>
  The fingerprint hash runs over the code units of the text in 32-bit arithmetic:
  \<open>hash << 5\<close> and \<open>hash & hash\<close> both convert to a signed 32-bit integer, so one step is
  \<open>(hash << 5) - hash + char\<close> on a 32-bit word, read signed at the end.
\<close>

definition hash_step :: "32 word \<Rightarrow> char \<Rightarrow> 32 word" where
  "hash_step hash c = push_bit 5 hash - hash + of_nat (of_char c)"

definition generateDeviceFingerprint :: "world \<Rightarrow> string \<times> world" where
  "generateDeviceFingerprint w =
     (let userAgent = (case navigator_userAgent w of None \<Rightarrow> ''unknown'' | Some ua \<Rightarrow> ua);
          screenInfo = (case screen_size w of
                          None \<Rightarrow> ''unknown''
                        | Some (width, height) \<Rightarrow>
                            Number_toString 10 width @ ''x'' @ Number_toString 10 height);
          (now, w1) = Date_now w;
          str = userAgent @ ''_'' @ screenInfo @ ''_'' @ Number_toString 10 now;
          hash = foldl hash_step 0 str
      in (''device_'' @ Number_toString 36 (abs (sint hash)), w1))"

definition Math_random_suffix :: "world \<Rightarrow> string \<times> world" where
  "Math_random_suffix w = (suffix_draws w 0, w\<lparr>suffix_draws := \<lambda>n. suffix_draws w (Suc n)\<rparr>)"

definition generateTokens :: "world \<Rightarrow> (string \<times> string) \<times> world" where
  "generateTokens w =
     (let (t1, w1) = Date_now w;
          (r1, w2) = Math_random_suffix w1;
          accessToken = ''access_'' @ Number_toString 10 t1 @ ''_'' @ r1;
          (t2, w3) = Date_now w2;
          (r2, w4) = Math_random_suffix w3;
          refreshToken = ''refresh_'' @ Number_toString 10 t2 @ ''_'' @ r2
      in ((accessToken, refreshToken), w4))"

definition rotateRefreshToken :: "string \<Rightarrow> world \<Rightarrow> (string \<times> string \<times> string) \<times> world" where
  "rotateRefreshToken oldRefreshToken w =
     (let ((accessToken, refreshToken), w1) = generateTokens w
      in ((accessToken, refreshToken, oldRefreshToken), w1))"

definition SESSION_MS :: int where
  "SESSION_MS = 7 * 24 * 60 * 60 * 1000"

record start_result =
  st_success :: bool
  st_error :: "string option"
  st_expiresAt :: "int option"
  st_otp :: "string option"

definition startSignup :: "string \<Rightarrow> world \<Rightarrow> start_result \<times> world" where
  "startSignup email w =
     (let (logged, w1) = analyticsStorage_addEvent ''auth_signup_started'' (toLowerCase email) None w;
          emailValidation = validateEmail email
      in if \<not> v_valid emailValidation
         then
           (let (logged, w2) = analyticsStorage_addEvent ''auth_signup_failed''
                                 (toLowerCase email) (v_error emailValidation) w1
            in (\<lparr>st_success = False, st_error = v_error emailValidation,
                 st_expiresAt = None, st_otp = None\<rparr>, w2))
         else
           (let existingParent = parentStorage_getByEmail email w1;
                (otpResult, w2) = generateOTPForEmail email w1
            in if \<not> g_success otpResult
               then
                 (let (logged, w3) = analyticsStorage_addEvent ''auth_signup_failed''
                                       (toLowerCase email) (g_error otpResult) w2
                  in (\<lparr>st_success = False, st_error = g_error otpResult,
                       st_expiresAt = None, st_otp = None\<rparr>, w3))
               else
                 (\<lparr>st_success = True, st_error = None, st_expiresAt = g_expiresAt otpResult,
                   st_otp = (if isDev w2 \<and> truthy_string (g_otp otpResult)
                             then g_otp otpResult else None)\<rparr>, w2)))"

record signup_result =
  r_success :: bool
  r_error :: "string option"
  r_session :: "session option"
  r_parent :: "parent option"

definition completeSignup :: "string \<Rightarrow> string \<Rightarrow> world \<Rightarrow> signup_result \<times> world" where
  "completeSignup email otp w =
     (let (otpValidation, w1) = validateOTP email otp w
      in if \<not> v_valid otpValidation
         then
           (let (logged, w2) = analyticsStorage_addEvent ''auth_signup_failed''
                                 (toLowerCase email) (v_error otpValidation) w1
            in (\<lparr>r_success = False, r_error = v_error otpValidation,
                 r_session = None, r_parent = None\<rparr>, w2))
         else
           (let (created, w2) = Date_now w1;
                (updated, w3) = Date_now w2;
                parent = \<lparr>p_email = toLowerCase email, p_createdAt = created,
                          p_updatedAt = updated, p_name = None, p_skippedProfileSetup = None\<rparr>;
                (saved, w4) = parentStorage_save parent w3;
                (deviceFingerprint, w5) = generateDeviceFingerprint w4;
                ((accessToken, refreshToken), w6) = generateTokens w5;
                (sessionCreated, w7) = Date_now w6;
                (sessionBase, w8) = Date_now w7;
                session = \<lparr>s_accessToken = accessToken, s_refreshToken = refreshToken,
                           s_parentEmail = toLowerCase email,
                           s_deviceFingerprint = deviceFingerprint,
                           s_createdAt = sessionCreated,
                           s_expiresAt = sessionBase + SESSION_MS, s_updatedAt = None\<rparr>;
                (saved, w9) = sessionStorage_save session w8;
                (logged, w10) = analyticsStorage_addEvent ''auth_signup_success''
                                  (toLowerCase email) None w9
            in (\<lparr>r_success = True, r_error = None, r_session = Some session,
                 r_parent = Some parent\<rparr>, w10)))"

definition getSession :: "string \<Rightarrow> world \<Rightarrow> session option \<times> world" where
  "getSession accessToken w =
     (if accessToken = [] then (None, w)
      else
        (case sessionStorage_getByToken accessToken w of
           None \<Rightarrow> (None, w)
         | Some session \<Rightarrow>
             (let (now, w1) = Date_now w
              in if now > s_expiresAt session
                 then (let (deleted, w2) = sessionStorage_delete accessToken w1 in (None, w2))
                 else (Some session, w1))))"

definition refreshSession :: "string \<Rightarrow> world \<Rightarrow> session option \<times> world" where
  "refreshSession refreshToken w =
     (if refreshToken = [] then (None, w)
      else
        (let allSessions = sessionStorage_getAll w
         in case List.find (\<lambda>s. s_refreshToken s = refreshToken) (map snd allSessions) of
              None \<Rightarrow> (None, w)
            | Some session \<Rightarrow>
                (let ((newAccess, newRefresh, oldRefresh), w1) = rotateRefreshToken refreshToken w;
                     (updated, w2) = Date_now w1;
                     (base, w3) = Date_now w2;
                     updatedSession = session\<lparr>s_accessToken := newAccess,
                                             s_refreshToken := newRefresh,
                                             s_updatedAt := Some updated,
                                             s_expiresAt := base + SESSION_MS\<rparr>;
                     (deleted, w4) = sessionStorage_delete (s_accessToken session) w3;
                     (saved, w5) = sessionStorage_save updatedSession w4
                 in (Some updatedSession, w5))))"

definition signOut :: "string \<Rightarrow> world \<Rightarrow> bool \<times> world" where
  "signOut accessToken w =
     (if accessToken \<noteq> []
      then (let (deleted, w1) = sessionStorage_delete accessToken w in (True, w1))
      else (True, w))"

definition getParentFromSession :: "string \<Rightarrow> world \<Rightarrow> parent option \<times> world" where
  "getParentFromSession accessToken w =
     (let (session, w1) = getSession accessToken w
      in case session of
           None \<Rightarrow> (None, w1)
         | Some s \<Rightarrow> (parentStorage_getByEmail (s_parentEmail s) w1, w1))"

section \<open>Notions used in the statements\<close>

text \<open>
  The number of attempts inside the rolling window at a reading of the clock, the
  attempts stored for an email, and a clock that never runs backwards.
\<close>

definition attempts_in_window :: "int \<Rightarrow> attempt list \<Rightarrow> nat" where
  "attempts_in_window now attempts =
     length (filter (\<lambda>a. now - att_timestamp a < ATTEMPT_WINDOW_MS) attempts)"

definition stored_attempts :: "string \<Rightarrow> world \<Rightarrow> attempt list" where
  "stored_attempts email w =
     (case otp_data_item (storage w) of
        None \<Rightarrow> []
      | Some otpData \<Rightarrow>
          (case otpData (toLowerCase email) of None \<Rightarrow> [] | Some data \<Rightarrow> od_attempts data))"

definition clock_monotone :: "world \<Rightarrow> bool" where
  "clock_monotone w = (\<forall>i. clock w i \<le> clock w (Suc i))"

text \<open>
  A caller that requests a code \<open>n\<close> times in a row for one email, with no other call
  in between.
\<close>

fun requestCodes :: "nat \<Rightarrow> string \<Rightarrow> world \<Rightarrow> generate_result list \<times> world" where
  "requestCodes 0 email w = ([], w)"
| "requestCodes (Suc n) email w =
     (let (r, w1) = generateOTPForEmail email w;
          (rs, w2) = requestCodes n email w1
      in (r # rs, w2))"

text \<open>
  The record holds a live code when both tests of \<open>validateOTP\<close> pass; \<open>code_expired\<close>
  is its expiry test; \<open>failed_attempt\<close> and \<open>add_attempt\<close> name the record a failing
  call pushes.
\<close>

definition live_code :: "otp_data \<Rightarrow> bool" where
  "live_code d = (truthy_string (od_currentOTP d) \<and> truthy_number (od_otpGeneratedAt d))"

definition code_expired :: "int \<Rightarrow> otp_data \<Rightarrow> bool" where
  "code_expired now d = (now - ToNumber (od_otpGeneratedAt d) > VALIDITY_MS)"

definition failed_attempt :: "string \<Rightarrow> int \<Rightarrow> string \<Rightarrow> attempt" where
  "failed_attempt submitted now why =
     \<lparr>att_otp = submitted, att_timestamp = now, att_success = False, att_reason = Some why\<rparr>"

definition add_attempt :: "attempt \<Rightarrow> otp_data \<Rightarrow> otp_data" where
  "add_attempt a d = d\<lparr>od_attempts := od_attempts d @ [a]\<rparr>"

text \<open>
  A stored object is lower-keyed when every key of it is its own lower-case form. A
  \<open>call\<close> is one operation of the storage and service modules; \<open>run_call\<close> is the
  world it leaves.
\<close>

definition lower_keyed :: "(string \<rightharpoonup> 'a) option \<Rightarrow> bool" where
  "lower_keyed item = (case item of None \<Rightarrow> True | Some m \<Rightarrow> (\<forall>k\<in>dom m. toLowerCase k = k))"

definition keys_lowercase :: "world \<Rightarrow> bool" where
  "keys_lowercase w =
     (lower_keyed (parents_item (storage w)) \<and> lower_keyed (otp_data_item (storage w)))"

datatype call =
    ParentSave parent
  | ParentDelete string
  | OtpSave string otp_data
  | OtpDelete string
  | GenerateOTPForEmail string
  | ValidateOTP string string
  | StartSignup string
  | CompleteSignup string string
  | GetSession string
  | RefreshSession string
  | SignOut string

fun run_call :: "call \<Rightarrow> world \<Rightarrow> world" where
  "run_call (ParentSave p) w = snd (parentStorage_save p w)"
| "run_call (ParentDelete e) w = snd (parentStorage_delete e w)"
| "run_call (OtpSave e d) w = snd (otpStorage_save e d w)"
| "run_call (OtpDelete e) w = snd (otpStorage_delete e w)"
| "run_call (GenerateOTPForEmail e) w = snd (generateOTPForEmail e w)"
| "run_call (ValidateOTP e c) w = snd (validateOTP e c w)"
| "run_call (StartSignup e) w = snd (startSignup e w)"
| "run_call (CompleteSignup e c) w = snd (completeSignup e c w)"
| "run_call (GetSession t) w = snd (getSession t w)"
| "run_call (RefreshSession t) w = snd (refreshSession t w)"
| "run_call (SignOut t) w = snd (signOut t w)"

section \<open>Example worlds\<close>

text \<open>
  Concrete worlds for evaluating the operations: an empty store, a store with an OTP
  record for \<open>user@example.com\<close> (code 482913), with five or four failed attempts in
  the window, with the medium down, with an existing account, with one expired
  session, and with a session under the access token that the next reading and draw spell. The clock reads 1700000000000, 1700000000001, ...
\<close>

definition storage_empty :: async_storage where
  "storage_empty = \<lparr>available = True, parents_item = None, sessions_item = None,
                      otp_data_item = None, analytics_item = None\<rparr>"

definition world_fresh :: world where
  "world_fresh = \<lparr>storage = storage_empty, clock = (\<lambda>n. 1700000000000 + int n),
                    otp_draws = (\<lambda>n. 482913 + n), suffix_draws = (\<lambda>n. ''k3j9x2m1q''),
                    navigator_userAgent = None, screen_size = None, isDev = True\<rparr>"

definition world_with_otp :: "int \<Rightarrow> attempt list \<Rightarrow> world" where
  "world_with_otp generated attempts =
     world_fresh\<lparr>storage := storage_empty\<lparr>otp_data_item :=
       Some [''user@example.com'' \<mapsto>
         \<lparr>od_email = ''user@example.com'', od_attempts = attempts,
           od_currentOTP = Some ''482913'', od_otpGeneratedAt = Some generated\<rparr>]\<rparr>\<rparr>"

definition wrong_attempts :: "int list \<Rightarrow> attempt list" where
  "wrong_attempts stamps = map (\<lambda>t. failed_attempt ''000000'' t ''invalid'') stamps"

definition world_throttled :: world where
  "world_throttled =
     world_with_otp 1699999980000
       (wrong_attempts [1699999990000, 1699999991000, 1699999992000, 1699999993000, 1699999994000])"

definition world_expired_at_cap :: world where
  "world_expired_at_cap =
     world_with_otp 1699990000000
       (wrong_attempts [1699999990000, 1699999991000, 1699999992000, 1699999993000])"

definition world_down :: world where
  "world_down = world_throttled\<lparr>storage := (storage world_throttled)\<lparr>available := False\<rparr>\<rparr>"

definition ann :: parent where
  "ann = \<lparr>p_email = ''user@example.com'', p_createdAt = 1600000000000,
           p_updatedAt = 1600000500000, p_name = Some ''Ann'',
           p_skippedProfileSetup = Some True\<rparr>"

definition world_resignup :: world where
  "world_resignup =
     (world_with_otp 1699999980000 [])\<lparr>storage :=
        (storage (world_with_otp 1699999980000 []))\<lparr>parents_item :=
           Some [''user@example.com'' \<mapsto> ann]\<rparr>\<rparr>"

definition old_session :: session where
  "old_session = \<lparr>s_accessToken = ''access_1690000000000_aaaaaaaaa'',
                    s_refreshToken = ''refresh_1690000000000_bbbbbbbbb'',
                    s_parentEmail = ''user@example.com'', s_deviceFingerprint = ''device_1x2y3z'',
                    s_createdAt = 1690000000000, s_expiresAt = 1690604800000,
                    s_updatedAt = None\<rparr>"

definition colliding_session :: session where
  "colliding_session = old_session\<lparr>s_accessToken := ''access_1700000000000_k3j9x2m1q''\<rparr>"

definition world_token_collision :: world where
  "world_token_collision =
     world_fresh\<lparr>storage := storage_empty\<lparr>sessions_item :=
       Some [(''access_1700000000000_k3j9x2m1q'', colliding_session)]\<rparr>\<rparr>"

definition world_with_session :: world where
  "world_with_session =
     world_fresh\<lparr>storage := storage_empty\<lparr>sessions_item :=
       Some [(''access_1690000000000_aaaaaaaaa'', old_session)]\<rparr>\<rparr>"

section \<open>Facts about the operations\<close>

lemma cleanOldAttempts_eq:
  "cleanOldAttempts atts w =
     (filter (\<lambda>a. clock w 0 - att_timestamp a < ATTEMPT_WINDOW_MS) atts, snd (Date_now w))"
  by (simp add: cleanOldAttempts_def Date_now_def)

lemma hasExceededMaxAttempts_eq:
  "hasExceededMaxAttempts atts w =
     (MAX_ATTEMPTS \<le> attempts_in_window (clock w 0) atts, snd (Date_now w))"
  by (simp add: hasExceededMaxAttempts_def cleanOldAttempts_eq attempts_in_window_def)

lemma storage_Date_now [simp]: "storage (snd (Date_now w)) = storage w"
  by (simp add: Date_now_def)

lemma clock_Date_now [simp]: "clock (snd (Date_now w)) n = clock w (Suc n)"
  by (simp add: Date_now_def)

lemma fst_Date_now [simp]: "fst (Date_now w) = clock w 0"
  by (simp add: Date_now_def)

lemma getOTPData_cong_storage:
  "storage w' = storage w \<Longrightarrow> getOTPData email w' = getOTPData email w"
  by (simp add: getOTPData_def otpStorage_getByEmail_def otpStorage_getAll_def
      storageService_getItem_def)

lemma generateOTPForEmail_throttled:
  assumes "MAX_ATTEMPTS \<le> attempts_in_window (clock w 0) (od_attempts (getOTPData email w))"
  shows "generateOTPForEmail email w =
     (\<lparr>g_success = False, g_error = Some ''Too many attempts. Please try again later.'',
       g_otp = None, g_expiresAt = None\<rparr>, snd (Date_now w))"
  using assms by (simp add: generateOTPForEmail_def hasExceededMaxAttempts_eq Let_def)

lemma generateOTPForEmail_ok:
  assumes "\<not> MAX_ATTEMPTS \<le> attempts_in_window (clock w 0) (od_attempts (getOTPData email w))"
  shows "generateOTPForEmail email w =
     (let otp = Number_toString 10 (int (otp_draws w 0)); now = clock w 1 in
     (\<lparr>g_success = True, g_error = None, g_otp = Some otp, g_expiresAt = Some (now + VALIDITY_MS)\<rparr>,
      snd (otpStorage_save email
         ((getOTPData email w)\<lparr>od_currentOTP := Some otp, od_otpGeneratedAt := Some now\<rparr>)
         (snd (Date_now (snd (generateOTP (snd (Date_now w)))))))))"
  using assms
  by (simp add: generateOTPForEmail_def hasExceededMaxAttempts_eq Let_def split_def generateOTP_def Date_now_def)

lemma toLowerCase_char_idem: "toLowerCase_char (toLowerCase_char c) = toLowerCase_char c"
  by (simp add: toLowerCase_char_def Let_def)

lemma toLowerCase_idem [simp]: "toLowerCase (toLowerCase s) = toLowerCase s"
  by (simp add: toLowerCase_def toLowerCase_char_idem)

lemma getOTPData_lower:
  "toLowerCase e1 = toLowerCase e2 \<Longrightarrow> getOTPData e1 w = getOTPData e2 w"
  by (simp add: getOTPData_def otpStorage_getByEmail_def cong: option.case_cong)

lemma getOTPData_after_save:
  "getOTPData e (snd (otpStorage_save email d w)) =
     (if available (storage w) \<and> toLowerCase e = toLowerCase email then d else getOTPData e w)"
  by (simp add: getOTPData_def otpStorage_getByEmail_def otpStorage_save_def otpStorage_getAll_def
      storageService_getItem_def storageService_setItem_def Let_def)

lemma storage_generateOTP [simp]: "storage (snd (generateOTP w)) = storage w"
  by (simp add: generateOTP_def)

lemma clock_generateOTP [simp]: "clock (snd (generateOTP w)) = clock w"
  by (simp add: generateOTP_def)

lemma getOTPData_Date_now [simp]: "getOTPData e (snd (Date_now w)) = getOTPData e w"
  by (rule getOTPData_cong_storage) simp

lemma getOTPData_generateOTP [simp]: "getOTPData e (snd (generateOTP w)) = getOTPData e w"
  by (rule getOTPData_cong_storage) simp

lemma attempts_generateOTPForEmail:
  "od_attempts (getOTPData e (snd (generateOTPForEmail email w))) = od_attempts (getOTPData e w)"
proof (cases "MAX_ATTEMPTS \<le> attempts_in_window (clock w 0) (od_attempts (getOTPData email w))")
  case True
  then show ?thesis
    by (simp add: generateOTPForEmail_throttled)
next
  case False
  then show ?thesis
    using getOTPData_lower[of e email w]
    by (simp add: generateOTPForEmail_ok Let_def getOTPData_after_save)
qed

lemma clock_otpStorage_save [simp]: "clock (snd (otpStorage_save email d w)) = clock w"
  by (simp add: otpStorage_save_def storageService_setItem_def Let_def)

lemma clock_generateOTPForEmail:
  "\<exists>k. \<forall>n. clock (snd (generateOTPForEmail email w)) n = clock w (n + k)"
proof (cases "MAX_ATTEMPTS \<le> attempts_in_window (clock w 0) (od_attempts (getOTPData email w))")
  case True
  then show ?thesis
    by (intro exI[of _ 1]) (simp add: generateOTPForEmail_throttled)
next
  case False
  then show ?thesis
    by (intro exI[of _ 2]) (simp add: generateOTPForEmail_ok Let_def)
qed

lemma clock_monotone_le: "clock_monotone w \<Longrightarrow> clock w i \<le> clock w (i + k)"
proof (induction k)
  case 0
  then show ?case by simp
next
  case (Suc k)
  have "clock w (i + k) \<le> clock w (Suc (i + k))"
    using Suc.prems by (simp add: clock_monotone_def)
  with Suc.IH[OF Suc.prems] show ?case by simp
qed

lemma attempts_in_window_antimono:
  "t \<le> t' \<Longrightarrow> attempts_in_window t' atts \<le> attempts_in_window t atts"
  unfolding attempts_in_window_def
  by (induction atts) auto

lemma requestCodes_all_succeed:
  "clock_monotone w \<Longrightarrow>
   attempts_in_window (clock w 0) (od_attempts (getOTPData email w)) < MAX_ATTEMPTS \<Longrightarrow>
   list_all g_success (fst (requestCodes n email w))"
proof (induction n arbitrary: w)
  case 0
  then show ?case by simp
next
  case (Suc n)
  let ?w1 = "snd (generateOTPForEmail email w)"
  from Suc.prems(2) have ok: "g_success (fst (generateOTPForEmail email w))"
    by (simp add: generateOTPForEmail_ok Let_def)
  obtain k where k: "\<And>i. clock ?w1 i = clock w (i + k)"
    using clock_generateOTPForEmail by blast
  have mono: "clock_monotone ?w1"
    using Suc.prems(1) by (simp add: clock_monotone_def k)
  have "clock w 0 \<le> clock ?w1 0"
    using clock_monotone_le[OF Suc.prems(1), of 0 k] by (simp add: k)
  then have "attempts_in_window (clock ?w1 0) (od_attempts (getOTPData email ?w1)) < MAX_ATTEMPTS"
    using Suc.prems(2)
      attempts_in_window_antimono[of "clock w 0" "clock ?w1 0" "od_attempts (getOTPData email w)"]
    by (simp add: attempts_generateOTPForEmail)
  from Suc.IH[OF mono this] ok show ?case
    by (simp add: split_def Let_def)
qed

lemma attempts_getOTPData_stored:
  "available (storage w) \<Longrightarrow> od_attempts (getOTPData email w) = stored_attempts email w"
  by (simp add: getOTPData_def otpStorage_getByEmail_def otpStorage_getAll_def
      storageService_getItem_def stored_attempts_def split: option.splits)

lemma validateOTP_notfound:
  "\<not> live_code (getOTPData email w) \<Longrightarrow>
   validateOTP email inputOTP w =
     (\<lparr>v_valid = False, v_error = Some ''No OTP found. Please request a new one.''\<rparr>, w)"
  by (auto simp add: validateOTP_def live_code_def Let_def)

lemma validateOTP_expired:
  "live_code (getOTPData email w) \<Longrightarrow> code_expired (clock w 0) (getOTPData email w) \<Longrightarrow>
   validateOTP email inputOTP w =
     (\<lparr>v_valid = False, v_error = Some ''Code expired''\<rparr>,
      snd (otpStorage_save email
        (add_attempt (failed_attempt inputOTP (clock w 0) ''expired'') (getOTPData email w))
        (snd (Date_now w))))"
  by (simp add: validateOTP_def live_code_def code_expired_def Let_def split_def
      add_attempt_def failed_attempt_def)

lemma validateOTP_throttled:
  "live_code (getOTPData email w) \<Longrightarrow> \<not> code_expired (clock w 0) (getOTPData email w) \<Longrightarrow>
   MAX_ATTEMPTS \<le> attempts_in_window (clock w 1) (od_attempts (getOTPData email w)) \<Longrightarrow>
   validateOTP email inputOTP w =
     (\<lparr>v_valid = False, v_error = Some ''Too many attempts''\<rparr>, snd (Date_now (snd (Date_now w))))"
  by (simp add: validateOTP_def live_code_def code_expired_def Let_def split_def
      hasExceededMaxAttempts_eq)

lemma validateOTP_valid:
  "live_code (getOTPData email w) \<Longrightarrow> \<not> code_expired (clock w 0) (getOTPData email w) \<Longrightarrow>
   \<not> MAX_ATTEMPTS \<le> attempts_in_window (clock w 1) (od_attempts (getOTPData email w)) \<Longrightarrow>
   od_currentOTP (getOTPData email w) = Some inputOTP \<Longrightarrow>
   validateOTP email inputOTP w =
     (\<lparr>v_valid = True, v_error = None\<rparr>,
      snd (otpStorage_save email
        ((add_attempt \<lparr>att_otp = inputOTP, att_timestamp = clock w 0, att_success = True,
                       att_reason = None\<rparr> (getOTPData email w))
           \<lparr>od_currentOTP := None, od_otpGeneratedAt := None\<rparr>)
        (snd (Date_now (snd (Date_now w))))))"
  by (simp add: validateOTP_def live_code_def code_expired_def Let_def split_def
      hasExceededMaxAttempts_eq add_attempt_def)

lemma validateOTP_invalid:
  "live_code (getOTPData email w) \<Longrightarrow> \<not> code_expired (clock w 0) (getOTPData email w) \<Longrightarrow>
   \<not> MAX_ATTEMPTS \<le> attempts_in_window (clock w 1) (od_attempts (getOTPData email w)) \<Longrightarrow>
   od_currentOTP (getOTPData email w) \<noteq> Some inputOTP \<Longrightarrow>
   validateOTP email inputOTP w =
     (\<lparr>v_valid = False,
       v_error = Some (if MAX_ATTEMPTS \<le> attempts_in_window (clock w 2)
                            (od_attempts (getOTPData email w) @
                               [failed_attempt inputOTP (clock w 0) ''invalid''])
                       then ''Too many attempts'' else ''Invalid code'')\<rparr>,
      snd (Date_now (snd (otpStorage_save email
        (add_attempt (failed_attempt inputOTP (clock w 0) ''invalid'') (getOTPData email w))
        (snd (Date_now (snd (Date_now w))))))))"
  by (simp add: validateOTP_def live_code_def code_expired_def Let_def split_def
      hasExceededMaxAttempts_eq add_attempt_def failed_attempt_def cleanOldAttempts_eq
      attempts_in_window_def numeral_2_eq_2)

lemma available_Date_now [simp]: "available (storage (snd (Date_now w))) = available (storage w)"
  by simp

lemma attempts_after_save:
  "available (storage w) \<Longrightarrow>
   getOTPData email (snd (otpStorage_save email d w)) = d"
  by (simp add: getOTPData_after_save)

lemma storage_otpStorage_save_Date_now:
  "storage (snd (otpStorage_save email d (snd (Date_now w)))) = storage (snd (otpStorage_save email d w))"
  by (simp add: otpStorage_save_def otpStorage_getAll_def storageService_getItem_def
      storageService_setItem_def Let_def)

lemma digits_nonempty: "digits b n \<noteq> []"
  by (subst digits.simps) simp

lemma Number_toString_nonempty: "Number_toString radix i \<noteq> []"
  by (simp add: Number_toString_def digits_nonempty)

lemma available_otpStorage_save [simp]:
  "available (storage (snd (otpStorage_save email d w))) = available (storage w)"
  by (simp add: otpStorage_save_def storageService_setItem_def Let_def)

lemma available_generateOTP [simp]:
  "available (storage (snd (generateOTP w))) = available (storage w)"
  by simp

lemma sessionStorage_getAll_storage:
  "storage w' = storage w \<Longrightarrow> sessionStorage_getAll w' = sessionStorage_getAll w"
  by (simp add: sessionStorage_getAll_def storageService_getItem_def)

lemma sessionStorage_getAll_Date_now [simp]:
  "sessionStorage_getAll (snd (Date_now w)) = sessionStorage_getAll w"
  by (rule sessionStorage_getAll_storage) simp

lemma sessions_after_delete:
  "available (storage w) \<Longrightarrow>
   sessionStorage_getAll (snd (sessionStorage_delete k w)) = AList.delete k (sessionStorage_getAll w)"
  by (simp add: sessionStorage_getAll_def sessionStorage_delete_def storageService_getItem_def
      storageService_setItem_def Let_def)


lemma available_sessionStorage_delete [simp]:
  "available (storage (snd (sessionStorage_delete k w))) = available (storage w)"
  by (simp add: sessionStorage_delete_def storageService_setItem_def Let_def)

lemma available_sessionStorage_save [simp]:
  "available (storage (snd (sessionStorage_save s w))) = available (storage w)"
  by (simp add: sessionStorage_save_def storageService_setItem_def Let_def)

lemma clock_sessionStorage_delete [simp]:
  "clock (snd (sessionStorage_delete k w)) = clock w"
  by (simp add: sessionStorage_delete_def storageService_setItem_def Let_def)

lemma clock_sessionStorage_save [simp]:
  "clock (snd (sessionStorage_save s w)) = clock w"
  by (simp add: sessionStorage_save_def storageService_setItem_def Let_def)


lemma storage_generateTokens [simp]: "storage (snd (generateTokens w)) = storage w"
  by (simp add: generateTokens_def Date_now_def Math_random_suffix_def Let_def split_def)

lemma clock_generateTokens [simp]: "clock (snd (generateTokens w)) n = clock w (Suc (Suc n))"
  by (simp add: generateTokens_def Date_now_def Math_random_suffix_def Let_def split_def)

lemma lower_keyed_upd:
  "lower_keyed (Some (m(toLowerCase e \<mapsto> v))) = lower_keyed (Some m)"
proof -
  have idem: "toLowerCase (toLowerCase e) = toLowerCase e" by simp
  show ?thesis
    unfolding lower_keyed_def option.case
  proof
    assume a: "\<forall>k\<in>dom (m(toLowerCase e \<mapsto> v)). toLowerCase k = k"
    show "\<forall>k\<in>dom m. toLowerCase k = k"
    proof
      fix k assume "k \<in> dom m"
      then have "k \<in> dom (m(toLowerCase e \<mapsto> v))" by simp
      with a show "toLowerCase k = k" by blast
    qed
  next
    assume a: "\<forall>k\<in>dom m. toLowerCase k = k"
    show "\<forall>k\<in>dom (m(toLowerCase e \<mapsto> v)). toLowerCase k = k"
    proof
      fix k assume "k \<in> dom (m(toLowerCase e \<mapsto> v))"
      then have "k = toLowerCase e \<or> k \<in> dom m" by auto
      with a idem show "toLowerCase k = k" by auto
    qed
  qed
qed

lemma lower_keyed_del:
  "lower_keyed (Some (m(toLowerCase e := None))) = lower_keyed (Some m)"
proof -
  have idem: "toLowerCase (toLowerCase e) = toLowerCase e" by simp
  show ?thesis
    unfolding lower_keyed_def option.case
  proof
    assume a: "\<forall>k\<in>dom (m(toLowerCase e := None)). toLowerCase k = k"
    show "\<forall>k\<in>dom m. toLowerCase k = k"
    proof
      fix k assume k: "k \<in> dom m"
      show "toLowerCase k = k"
      proof (cases "k = toLowerCase e")
        case True
        with idem show ?thesis by simp
      next
        case False
        with k have "k \<in> dom (m(toLowerCase e := None))" by simp
        with a show ?thesis by blast
      qed
    qed
  next
    assume a: "\<forall>k\<in>dom m. toLowerCase k = k"
    then show "\<forall>k\<in>dom (m(toLowerCase e := None)). toLowerCase k = k"
      by simp
  qed
qed

lemma lower_keyed_empty [simp]: "lower_keyed (Some Map.empty)" "lower_keyed None"
  by (simp_all add: lower_keyed_def)

lemma kl_storage: "storage w' = storage w \<Longrightarrow> keys_lowercase w' = keys_lowercase w"
  by (simp add: keys_lowercase_def)

lemma kl_Date_now [simp]: "keys_lowercase (snd (Date_now w)) = keys_lowercase w"
  by (rule kl_storage) simp

lemma kl_generateOTP [simp]: "keys_lowercase (snd (generateOTP w)) = keys_lowercase w"
  by (rule kl_storage) simp

lemma kl_generateTokens [simp]: "keys_lowercase (snd (generateTokens w)) = keys_lowercase w"
  by (rule kl_storage) simp

lemma storage_generateDeviceFingerprint [simp]:
  "storage (snd (generateDeviceFingerprint w)) = storage w"
  by (simp add: generateDeviceFingerprint_def Let_def split_def)

lemma clock_generateDeviceFingerprint [simp]:
  "clock (snd (generateDeviceFingerprint w)) n = clock w (Suc n)"
  by (simp add: generateDeviceFingerprint_def Let_def split_def)

lemma kl_generateDeviceFingerprint [simp]:
  "keys_lowercase (snd (generateDeviceFingerprint w)) = keys_lowercase w"
  by (rule kl_storage) simp

lemma kl_otpStorage_save [simp]: "keys_lowercase (snd (otpStorage_save e d w)) = keys_lowercase w"
  by (cases "otp_data_item (storage w)")
     (simp_all add: keys_lowercase_def otpStorage_save_def otpStorage_getAll_def
      storageService_getItem_def storageService_setItem_def Let_def lower_keyed_upd)

lemma kl_otpStorage_delete [simp]: "keys_lowercase (snd (otpStorage_delete e w)) = keys_lowercase w"
  by (cases "otp_data_item (storage w)")
     (simp_all add: keys_lowercase_def otpStorage_delete_def otpStorage_getAll_def
      storageService_getItem_def storageService_setItem_def Let_def lower_keyed_del)

lemma kl_parentStorage_save [simp]: "keys_lowercase (snd (parentStorage_save p w)) = keys_lowercase w"
  by (cases "parents_item (storage w)")
     (simp_all add: keys_lowercase_def parentStorage_save_def parentStorage_getAll_def
      storageService_getItem_def storageService_setItem_def Let_def lower_keyed_upd)

lemma kl_parentStorage_delete [simp]: "keys_lowercase (snd (parentStorage_delete e w)) = keys_lowercase w"
  by (cases "parents_item (storage w)")
     (simp_all add: keys_lowercase_def parentStorage_delete_def parentStorage_getAll_def
      storageService_getItem_def storageService_setItem_def Let_def lower_keyed_del)

lemma kl_sessionStorage_save [simp]: "keys_lowercase (snd (sessionStorage_save s w)) = keys_lowercase w"
  by (simp add: keys_lowercase_def sessionStorage_save_def storageService_setItem_def Let_def)

lemma kl_sessionStorage_delete [simp]: "keys_lowercase (snd (sessionStorage_delete t w)) = keys_lowercase w"
  by (simp add: keys_lowercase_def sessionStorage_delete_def storageService_setItem_def Let_def)

lemma kl_addEvent [simp]:
  "keys_lowercase (snd (analyticsStorage_addEvent name e why w)) = keys_lowercase w"
  by (simp add: keys_lowercase_def analyticsStorage_addEvent_def storageService_setItem_def
      Let_def split_def)

lemma kl_hasExceeded [simp]: "keys_lowercase (snd (hasExceededMaxAttempts a w)) = keys_lowercase w"
  by (simp add: hasExceededMaxAttempts_eq)

lemma kl_cleanOld [simp]: "keys_lowercase (snd (cleanOldAttempts a w)) = keys_lowercase w"
  by (simp add: cleanOldAttempts_eq)

lemma kl_generateOTPForEmail [simp]:
  "keys_lowercase (snd (generateOTPForEmail e w)) = keys_lowercase w"
  by (simp add: generateOTPForEmail_def Let_def split_def)

lemma kl_validateOTP [simp]: "keys_lowercase (snd (validateOTP e c w)) = keys_lowercase w"
  by (simp add: validateOTP_def Let_def split_def)

lemma kl_startSignup [simp]: "keys_lowercase (snd (startSignup e w)) = keys_lowercase w"
  by (simp add: startSignup_def Let_def split_def)

lemma kl_completeSignup [simp]: "keys_lowercase (snd (completeSignup e c w)) = keys_lowercase w"
  by (simp add: completeSignup_def Let_def split_def)

lemma kl_getSession [simp]: "keys_lowercase (snd (getSession t w)) = keys_lowercase w"
  by (simp add: getSession_def Let_def split_def split: option.splits)

lemma kl_refreshSession [simp]: "keys_lowercase (snd (refreshSession t w)) = keys_lowercase w"
  by (simp add: refreshSession_def rotateRefreshToken_def Let_def split_def split: option.splits)

lemma kl_signOut [simp]: "keys_lowercase (snd (signOut t w)) = keys_lowercase w"
  by (simp add: signOut_def Let_def split_def)

lemma kl_run_call [simp]: "keys_lowercase (run_call c w) = keys_lowercase w"
  by (cases c) simp_all

lemma kl_fold: "keys_lowercase (fold run_call calls w) = keys_lowercase w"
  by (induction calls arbitrary: w) simp_all

lemma lower_keyed_inj:
  "lower_keyed item \<Longrightarrow> inj_on toLowerCase (dom (case item of None \<Rightarrow> Map.empty | Some m \<Rightarrow> m))"
  by (cases item) (auto simp add: lower_keyed_def inj_on_def)

lemma keys_lowercase_inj:
  assumes "keys_lowercase w"
  shows "inj_on toLowerCase (dom (parentStorage_getAll w))"
    and "inj_on toLowerCase (dom (otpStorage_getAll w))"
proof -
  have p: "inj_on toLowerCase (dom (case parents_item (storage w) of None \<Rightarrow> Map.empty | Some m \<Rightarrow> m))"
    using assms by (simp add: keys_lowercase_def lower_keyed_inj)
  have q: "inj_on toLowerCase (dom (case otp_data_item (storage w) of None \<Rightarrow> Map.empty | Some m \<Rightarrow> m))"
    using assms by (simp add: keys_lowercase_def lower_keyed_inj)
  show "inj_on toLowerCase (dom (parentStorage_getAll w))"
    using p by (simp add: parentStorage_getAll_def storageService_getItem_def)
  show "inj_on toLowerCase (dom (otpStorage_getAll w))"
    using q by (simp add: otpStorage_getAll_def storageService_getItem_def)
qed

lemma getOTPData_unavailable:
  "\<not> available (storage w) \<Longrightarrow>
   getOTPData email w = \<lparr>od_email = toLowerCase email, od_attempts = [],
                          od_currentOTP = None, od_otpGeneratedAt = None\<rparr>"
  by (simp add: getOTPData_def otpStorage_getByEmail_def otpStorage_getAll_def
      storageService_getItem_def)

lemma storage_setItem_unavailable:
  "\<not> available (storage w) \<Longrightarrow> storageService_setItem key_update v w = (False, w)"
  by (simp add: storageService_setItem_def)

lemma addEvent_unavailable:
  "\<not> available (storage w) \<Longrightarrow>
   analyticsStorage_addEvent name e why w = (False, snd (Date_now w))"
  by (simp add: analyticsStorage_addEvent_def Let_def split_def storageService_setItem_def)

lemma generateOTPForEmail_unavailable:
  assumes "\<not> available (storage w)"
  shows "g_success (fst (generateOTPForEmail email w))"
    and "storage (snd (generateOTPForEmail email w)) = storage w"
proof -
  have nt: "\<not> MAX_ATTEMPTS \<le> attempts_in_window (clock w 0) (od_attempts (getOTPData email w))"
    using assms by (simp add: getOTPData_unavailable attempts_in_window_def MAX_ATTEMPTS_def)
  show "g_success (fst (generateOTPForEmail email w))"
    using nt by (simp add: generateOTPForEmail_ok Let_def)
  show "storage (snd (generateOTPForEmail email w)) = storage w"
    using nt assms
    by (simp add: generateOTPForEmail_ok Let_def otpStorage_save_def storageService_setItem_def)
qed

lemma available_validateOTP [simp]:
  "available (storage (snd (validateOTP e c w))) = available (storage w)"
  by (simp add: validateOTP_def Let_def split_def hasExceededMaxAttempts_eq cleanOldAttempts_eq)

lemma parents_otpStorage_save [simp]:
  "parents_item (storage (snd (otpStorage_save e d w))) = parents_item (storage w)"
  by (simp add: otpStorage_save_def storageService_setItem_def Let_def)

lemma completeSignup_parent:
  assumes "v_valid (fst (validateOTP email otp w))" and "available (storage w)"
  shows "r_success (fst (completeSignup email otp w))"
    and "parentStorage_getByEmail email (snd (completeSignup email otp w)) =
           Some \<lparr>p_email = toLowerCase email,
                 p_createdAt = clock (snd (validateOTP email otp w)) 0,
                 p_updatedAt = clock (snd (validateOTP email otp w)) 1,
                 p_name = None, p_skippedProfileSetup = None\<rparr>"
proof -
  show "r_success (fst (completeSignup email otp w))"
    using assms(1) by (simp add: completeSignup_def Let_def split_def)
  have av: "available (storage (snd (validateOTP email otp w)))"
    using assms(2) by simp
  show "parentStorage_getByEmail email (snd (completeSignup email otp w)) =
           Some \<lparr>p_email = toLowerCase email,
                 p_createdAt = clock (snd (validateOTP email otp w)) 0,
                 p_updatedAt = clock (snd (validateOTP email otp w)) 1,
                 p_name = None, p_skippedProfileSetup = None\<rparr>"
    using assms(1) av
    by (simp add: completeSignup_def Let_def split_def parentStorage_getByEmail_def
        parentStorage_getAll_def parentStorage_save_def sessionStorage_save_def
        analyticsStorage_addEvent_def storageService_getItem_def storageService_setItem_def)
qed

lemma lower_example [simp]: "toLowerCase ''user@example.com'' = ''user@example.com''"
  by (simp add: toLowerCase_def toLowerCase_char_def)

lemma lower_example_mixed: "toLowerCase ''User@Example.COM'' = ''user@example.com''"
  by code_simp

section \<open>The operations on the example worlds\<close>

lemma world_with_otp_facts [simp]:
  "available (storage (world_with_otp t atts))"
  "clock (world_with_otp t atts) n = 1700000000000 + int n"
  "otp_draws (world_with_otp t atts) n = 482913 + n"
  "getOTPData ''user@example.com'' (world_with_otp t atts) =
     \<lparr>od_email = ''user@example.com'', od_attempts = atts,
       od_currentOTP = Some ''482913'', od_otpGeneratedAt = Some t\<rparr>"
  by (simp_all add: world_with_otp_def world_fresh_def storage_empty_def getOTPData_def
      otpStorage_getByEmail_def otpStorage_getAll_def storageService_getItem_def)

lemma world_fresh_facts [simp]:
  "available (storage world_fresh)"
  "clock world_fresh n = 1700000000000 + int n"
  "otp_draws world_fresh n = 482913 + n"
  "suffix_draws world_fresh n = ''k3j9x2m1q''"
  "getOTPData ''user@example.com'' world_fresh =
     \<lparr>od_email = ''user@example.com'', od_attempts = [],
       od_currentOTP = None, od_otpGeneratedAt = None\<rparr>"
  by (simp_all add: world_fresh_def storage_empty_def getOTPData_def
      otpStorage_getByEmail_def otpStorage_getAll_def storageService_getItem_def)

lemma clock_monotone_examples [simp]:
  "clock_monotone world_fresh" "clock_monotone (world_with_otp t atts)"
  by (simp_all add: clock_monotone_def)

lemma Number_toString_example [simp]: "Number_toString 10 482913 = ''482913''"
  by (simp add: Number_toString_def digits.simps digit_char_def)

lemma live_example [simp]: "t \<noteq> 0 \<Longrightarrow> live_code (getOTPData ''user@example.com'' (world_with_otp t atts))"
  by (simp add: live_code_def truthy_string_def truthy_number_def)

lemma window_examples [simp]:
  "attempts_in_window now [] = 0"
  "1700000000000 \<le> now \<Longrightarrow> now < 1700000001000 \<Longrightarrow> attempts_in_window now
     (wrong_attempts [1699999990000, 1699999991000, 1699999992000, 1699999993000, 1699999994000]) = 5"
  "1700000000000 \<le> now \<Longrightarrow> now < 1700000001000 \<Longrightarrow> attempts_in_window now
     (wrong_attempts [1699999990000, 1699999991000, 1699999992000, 1699999993000]) = 4"
  by (simp_all add: attempts_in_window_def wrong_attempts_def failed_attempt_def ATTEMPT_WINDOW_MS_def)

lemma world_throttled_facts [simp]:
  "available (storage world_throttled)"
  "clock world_throttled n = 1700000000000 + int n"
  "getOTPData ''user@example.com'' world_throttled =
     \<lparr>od_email = ''user@example.com'',
       od_attempts = wrong_attempts
         [1699999990000, 1699999991000, 1699999992000, 1699999993000, 1699999994000],
       od_currentOTP = Some ''482913'', od_otpGeneratedAt = Some 1699999980000\<rparr>"
  by (simp_all add: world_throttled_def)

lemma world_expired_at_cap_facts [simp]:
  "available (storage world_expired_at_cap)"
  "clock world_expired_at_cap n = 1700000000000 + int n"
  "getOTPData ''user@example.com'' world_expired_at_cap =
     \<lparr>od_email = ''user@example.com'',
       od_attempts = wrong_attempts [1699999990000, 1699999991000, 1699999992000, 1699999993000],
       od_currentOTP = Some ''482913'', od_otpGeneratedAt = Some 1699990000000\<rparr>"
  by (simp_all add: world_expired_at_cap_def)

lemma live_examples [simp]:
  "live_code \<lparr>od_email = e, od_attempts = atts, od_currentOTP = Some ''482913'',
              od_otpGeneratedAt = Some t\<rparr> = (t \<noteq> 0)"
  by (simp add: live_code_def truthy_string_def truthy_number_def)

lemma code_expired_examples [simp]:
  "code_expired now \<lparr>od_email = e, od_attempts = atts, od_currentOTP = c,
              od_otpGeneratedAt = Some t\<rparr> = (now - t > 600000)"
  by (simp add: code_expired_def ToNumber_def VALIDITY_MS_def)

lemma world_down_facts [simp]:
  "\<not> available (storage world_down)"
  "otp_data_item (storage world_down) = otp_data_item (storage world_throttled)"
  by (simp_all add: world_down_def)

lemma validateEmail_example: "validateEmail ''user@example.com'' = \<lparr>v_valid = True, v_error = None\<rparr>"
  by code_simp

lemma world_with_session_facts [simp]:
  "available (storage world_with_session)"
  "clock world_with_session n = 1700000000000 + int n"
  "suffix_draws world_with_session n = ''k3j9x2m1q''"
  "sessionStorage_getAll world_with_session = [(''access_1690000000000_aaaaaaaaa'', old_session)]"
  by (simp_all add: world_with_session_def world_fresh_def storage_empty_def
      sessionStorage_getAll_def storageService_getItem_def)

lemma Number_toString_clock [simp]:
  "Number_toString 10 1700000000000 = ''1700000000000''"
  "Number_toString 10 1700000000001 = ''1700000000001''"
  by (simp_all add: Number_toString_def digits.simps digit_char_def)

lemma world_token_collision_facts [simp]:
  "available (storage world_token_collision)"
  "clock world_token_collision n = 1700000000000 + int n"
  "suffix_draws world_token_collision n = ''k3j9x2m1q''"
  "sessionStorage_getAll world_token_collision =
     [(''access_1700000000000_k3j9x2m1q'', colliding_session)]"
  by (simp_all add: world_token_collision_def world_fresh_def storage_empty_def
      sessionStorage_getAll_def storageService_getItem_def)

lemma world_resignup_facts [simp]:
  "available (storage world_resignup)"
  "clock world_resignup n = 1700000000000 + int n"
  "getOTPData ''user@example.com'' world_resignup =
     \<lparr>od_email = ''user@example.com'', od_attempts = [],
       od_currentOTP = Some ''482913'', od_otpGeneratedAt = Some 1699999980000\<rparr>"
  "parentStorage_getByEmail ''user@example.com'' world_resignup = Some ann"
  by (simp_all add: world_resignup_def world_with_otp_def world_fresh_def storage_empty_def
      getOTPData_def otpStorage_getByEmail_def otpStorage_getAll_def storageService_getItem_def
      parentStorage_getByEmail_def parentStorage_getAll_def)

section \<open>The claims\<close>

text \<open>
  Claim C1 fails on the code. The account of \<open>user@example.com\<close> has a name, the
  skipped-setup flag and its creation instant; after a successful \<open>completeSignup\<close> the
  stored account has no name and no flag, and its creation instant is the instant of the
  call.
\<close>

theorem completeSignup_resignup_overwrites_profile:
  "parentStorage_getByEmail ''user@example.com'' world_resignup =
     Some \<lparr>p_email = ''user@example.com'', p_createdAt = 1600000000000,
           p_updatedAt = 1600000500000, p_name = Some ''Ann'',
           p_skippedProfileSetup = Some True\<rparr> \<and>
   r_success (fst (completeSignup ''user@example.com'' ''482913'' world_resignup)) \<and>
   parentStorage_getByEmail ''user@example.com''
     (snd (completeSignup ''user@example.com'' ''482913'' world_resignup)) =
     Some \<lparr>p_email = ''user@example.com'', p_createdAt = 1700000000002,
           p_updatedAt = 1700000000003, p_name = None, p_skippedProfileSetup = None\<rparr>"
proof -
  have v: "validateOTP ''user@example.com'' ''482913'' world_resignup =
     (\<lparr>v_valid = True, v_error = None\<rparr>,
      snd (otpStorage_save ''user@example.com''
        ((add_attempt \<lparr>att_otp = ''482913'', att_timestamp = clock world_resignup 0,
             att_success = True, att_reason = None\<rparr>
            (getOTPData ''user@example.com'' world_resignup))
           \<lparr>od_currentOTP := None, od_otpGeneratedAt := None\<rparr>)
        (snd (Date_now (snd (Date_now world_resignup))))))"
    by (rule validateOTP_valid) (simp_all add: MAX_ATTEMPTS_def)
  have ok: "v_valid (fst (validateOTP ''user@example.com'' ''482913'' world_resignup))"
    by (simp add: v)
  have av: "available (storage world_resignup)"
    by simp
  show ?thesis
    using completeSignup_parent[OF ok av]
    by (simp add: v ann_def)
qed

text \<open>
  Claim C2 as stated fails: with five attempts in the window, a verification (even with
  the right code) returns "Too many attempts" and the storage, and with it the attempts of
  the record, stays as it was.
\<close>

theorem validateOTP_throttled_not_recorded:
  "v_error (fst (validateOTP ''user@example.com'' ''482913'' world_throttled)) =
     Some ''Too many attempts'' \<and>
   storage (snd (validateOTP ''user@example.com'' ''482913'' world_throttled)) =
     storage world_throttled \<and>
   od_attempts (getOTPData ''user@example.com''
      (snd (validateOTP ''user@example.com'' ''482913'' world_throttled))) =
     od_attempts (getOTPData ''user@example.com'' world_throttled)"
  by (simp add: validateOTP_throttled MAX_ATTEMPTS_def)

text \<open>
  Claim C2, as amended. With the medium available, \<open>validateOTP\<close> appends exactly one
  attempt record (the submitted code, the reading of the clock, the success flag and the
  reason) when the outcome is valid, invalid, expired or the throttle raised after the
  append; it leaves the storage unchanged when no live code exists and when the throttle
  is raised by the check before the comparison.
\<close>

theorem validateOTP_attempt_record:
  assumes "available (storage w)"
  shows "if v_error (fst (validateOTP email inputOTP w)) = Some ''No OTP found. Please request a new one.'' \<or>
            (live_code (getOTPData email w) \<and> \<not> code_expired (clock w 0) (getOTPData email w) \<and>
             MAX_ATTEMPTS \<le> attempts_in_window (clock w 1) (od_attempts (getOTPData email w)))
         then storage (snd (validateOTP email inputOTP w)) = storage w
         else od_attempts (getOTPData email (snd (validateOTP email inputOTP w))) =
                od_attempts (getOTPData email w) @
                  [\<lparr>att_otp = inputOTP, att_timestamp = clock w 0,
                    att_success = v_valid (fst (validateOTP email inputOTP w)),
                    att_reason =
                      (if v_valid (fst (validateOTP email inputOTP w)) then None
                       else if v_error (fst (validateOTP email inputOTP w)) = Some ''Code expired''
                       then Some ''expired'' else Some ''invalid'')\<rparr>]"
proof -
  let ?d = "getOTPData email w"
  consider (notfound) "\<not> live_code ?d"
    | (expired) "live_code ?d" "code_expired (clock w 0) ?d"
    | (throttled) "live_code ?d" "\<not> code_expired (clock w 0) ?d"
        "MAX_ATTEMPTS \<le> attempts_in_window (clock w 1) (od_attempts ?d)"
    | (valid) "live_code ?d" "\<not> code_expired (clock w 0) ?d"
        "\<not> MAX_ATTEMPTS \<le> attempts_in_window (clock w 1) (od_attempts ?d)"
        "od_currentOTP ?d = Some inputOTP"
    | (invalid) "live_code ?d" "\<not> code_expired (clock w 0) ?d"
        "\<not> MAX_ATTEMPTS \<le> attempts_in_window (clock w 1) (od_attempts ?d)"
        "od_currentOTP ?d \<noteq> Some inputOTP"
    by blast
  then show ?thesis
  proof cases
    case notfound
    then show ?thesis by (simp add: validateOTP_notfound)
  next
    case expired
    then show ?thesis
      using assms
      by (simp add: validateOTP_expired attempts_after_save add_attempt_def failed_attempt_def)
  next
    case throttled
    then show ?thesis by (simp add: validateOTP_throttled)
  next
    case valid
    then show ?thesis
      using assms
      by (simp add: validateOTP_valid attempts_after_save add_attempt_def)
  next
    case invalid
    then show ?thesis
      using assms
      by (simp add: validateOTP_invalid attempts_after_save add_attempt_def failed_attempt_def)
  qed
qed

text \<open>
  The amended claim C2 on a valid verification and on a throttled one.
\<close>

theorem validateOTP_attempt_record_witness:
  "available (storage (world_with_otp 1699999980000 [])) \<and>
   od_attempts (getOTPData ''user@example.com''
      (snd (validateOTP ''user@example.com'' ''482913'' (world_with_otp 1699999980000 [])))) =
     [\<lparr>att_otp = ''482913'', att_timestamp = 1700000000000, att_success = True,
       att_reason = None\<rparr>] \<and>
   available (storage world_throttled) \<and>
   storage (snd (validateOTP ''user@example.com'' ''482913'' world_throttled)) =
     storage world_throttled"
  using validateOTP_attempt_record[of "world_with_otp 1699999980000 []" "''user@example.com''" "''482913''"]
    validateOTP_attempt_record[of world_throttled "''user@example.com''" "''482913''"]
  by (simp add: validateOTP_valid validateOTP_throttled MAX_ATTEMPTS_def)

text \<open>
  Claim C3 as stated fails: with four attempts in the window and an expired code, the
  failing call records a fifth attempt, so the cap is met, and still returns "Code
  expired".
\<close>

theorem validateOTP_expired_no_recheck:
  "v_error (fst (validateOTP ''user@example.com'' ''000000'' world_expired_at_cap)) =
     Some ''Code expired'' \<and>
   od_attempts (getOTPData ''user@example.com''
      (snd (validateOTP ''user@example.com'' ''000000'' world_expired_at_cap))) =
     wrong_attempts [1699999990000, 1699999991000, 1699999992000, 1699999993000] @
       [failed_attempt ''000000'' 1700000000000 ''expired''] \<and>
   MAX_ATTEMPTS \<le> attempts_in_window (clock world_expired_at_cap 1)
     (od_attempts (getOTPData ''user@example.com''
        (snd (validateOTP ''user@example.com'' ''000000'' world_expired_at_cap))))"
  by (simp add: validateOTP_expired attempts_after_save add_attempt_def MAX_ATTEMPTS_def
      attempts_in_window_def wrong_attempts_def failed_attempt_def ATTEMPT_WINDOW_MS_def)

text \<open>
  Claim C3, as amended. A call that fails on an expired code returns "Code expired" and
  records the reason "expired", with no second look at the window. A call that fails on a
  wrong code records the reason "invalid" and then counts the window again: it returns
  "Too many attempts" when the cap is met after the append and "Invalid code" otherwise.
\<close>

theorem validateOTP_recheck_after_invalid:
  assumes "available (storage w)" and "live_code (getOTPData email w)"
  shows "(code_expired (clock w 0) (getOTPData email w) \<longrightarrow>
            v_error (fst (validateOTP email inputOTP w)) = Some ''Code expired'' \<and>
            od_attempts (getOTPData email (snd (validateOTP email inputOTP w))) =
              od_attempts (getOTPData email w) @ [failed_attempt inputOTP (clock w 0) ''expired'']) \<and>
         (\<not> code_expired (clock w 0) (getOTPData email w) \<and>
          attempts_in_window (clock w 1) (od_attempts (getOTPData email w)) < MAX_ATTEMPTS \<and>
          od_currentOTP (getOTPData email w) \<noteq> Some inputOTP \<longrightarrow>
            v_error (fst (validateOTP email inputOTP w)) =
              Some (if MAX_ATTEMPTS \<le> attempts_in_window (clock w 2)
                         (od_attempts (getOTPData email (snd (validateOTP email inputOTP w))))
                    then ''Too many attempts'' else ''Invalid code'') \<and>
            od_attempts (getOTPData email (snd (validateOTP email inputOTP w))) =
              od_attempts (getOTPData email w) @ [failed_attempt inputOTP (clock w 0) ''invalid''])"
  using assms
  by (simp add: validateOTP_expired validateOTP_invalid attempts_after_save add_attempt_def
      not_le)

text \<open>
  The amended claim C3 on a wrong code that meets the cap, and on an expired code.
\<close>

theorem validateOTP_recheck_after_invalid_witness:
  "available (storage (world_with_otp 1699999980000
      (wrong_attempts [1699999990000, 1699999991000, 1699999992000, 1699999993000]))) \<and>
   v_error (fst (validateOTP ''user@example.com'' ''000000'' (world_with_otp 1699999980000
      (wrong_attempts [1699999990000, 1699999991000, 1699999992000, 1699999993000])))) =
     Some ''Too many attempts'' \<and>
   od_attempts (getOTPData ''user@example.com''
      (snd (validateOTP ''user@example.com'' ''000000'' (world_with_otp 1699999980000
         (wrong_attempts [1699999990000, 1699999991000, 1699999992000, 1699999993000]))))) =
     wrong_attempts [1699999990000, 1699999991000, 1699999992000, 1699999993000] @
       [failed_attempt ''000000'' 1700000000000 ''invalid''] \<and>
   v_error (fst (validateOTP ''user@example.com'' ''000000'' world_expired_at_cap)) =
     Some ''Code expired''"
  using validateOTP_recheck_after_invalid[of "world_with_otp 1699999980000
      (wrong_attempts [1699999990000, 1699999991000, 1699999992000, 1699999993000])"
      "''user@example.com''" "''000000''"]
    validateOTP_recheck_after_invalid[of world_expired_at_cap "''user@example.com''" "''000000''"]
  by (simp add: MAX_ATTEMPTS_def attempts_in_window_def wrong_attempts_def failed_attempt_def
      ATTEMPT_WINDOW_MS_def)

text \<open>
  Claim C4. \<open>generateOTPForEmail\<close> succeeds exactly when fewer than 5 attempts of the
  record it loads lie inside the trailing 60 minutes at the reading of the clock it takes
  (with the medium available these are the attempts stored under the lower-case email);
  when it fails it leaves the storage as it was; no call of it changes the attempts of any
  record; and with a clock that never runs backwards, any number of calls in a row that
  start below the cap all succeed.
\<close>

theorem requestCode_throttle:
  "(g_success (fst (generateOTPForEmail email w)) \<longleftrightarrow>
      attempts_in_window (clock w 0) (od_attempts (getOTPData email w)) < MAX_ATTEMPTS) \<and>
   (available (storage w) \<longrightarrow> od_attempts (getOTPData email w) = stored_attempts email w) \<and>
   (\<not> g_success (fst (generateOTPForEmail email w)) \<longrightarrow>
      storage (snd (generateOTPForEmail email w)) = storage w) \<and>
   od_attempts (getOTPData e (snd (generateOTPForEmail email w))) = od_attempts (getOTPData e w) \<and>
   (clock_monotone w \<and>
    attempts_in_window (clock w 0) (od_attempts (getOTPData email w)) < MAX_ATTEMPTS \<longrightarrow>
      list_all g_success (fst (requestCodes n email w)))"
proof (intro conjI)
  show "g_success (fst (generateOTPForEmail email w)) \<longleftrightarrow>
      attempts_in_window (clock w 0) (od_attempts (getOTPData email w)) < MAX_ATTEMPTS"
    by (cases "MAX_ATTEMPTS \<le> attempts_in_window (clock w 0) (od_attempts (getOTPData email w))")
       (simp_all add: generateOTPForEmail_throttled generateOTPForEmail_ok Let_def)
  show "available (storage w) \<longrightarrow> od_attempts (getOTPData email w) = stored_attempts email w"
    by (simp add: attempts_getOTPData_stored)
  show "\<not> g_success (fst (generateOTPForEmail email w)) \<longrightarrow>
      storage (snd (generateOTPForEmail email w)) = storage w"
    by (cases "MAX_ATTEMPTS \<le> attempts_in_window (clock w 0) (od_attempts (getOTPData email w))")
       (simp_all add: generateOTPForEmail_throttled generateOTPForEmail_ok Let_def)
  show "od_attempts (getOTPData e (snd (generateOTPForEmail email w))) = od_attempts (getOTPData e w)"
    by (rule attempts_generateOTPForEmail)
  show "clock_monotone w \<and>
    attempts_in_window (clock w 0) (od_attempts (getOTPData email w)) < MAX_ATTEMPTS \<longrightarrow>
      list_all g_success (fst (requestCodes n email w))"
    using requestCodes_all_succeed by blast
qed

text \<open>
  Six requests in a row on the empty store all succeed, and a request on the store with
  five attempts in the window fails without a write.
\<close>

theorem requestCode_throttle_witness:
  "g_success (fst (generateOTPForEmail ''user@example.com'' world_fresh)) \<and>
   od_attempts (getOTPData ''user@example.com''
      (snd (generateOTPForEmail ''user@example.com'' world_fresh))) = [] \<and>
   clock_monotone world_fresh \<and>
   list_all g_success (fst (requestCodes 6 ''user@example.com'' world_fresh)) \<and>
   \<not> g_success (fst (generateOTPForEmail ''user@example.com'' world_throttled)) \<and>
   storage (snd (generateOTPForEmail ''user@example.com'' world_throttled)) = storage world_throttled"
  using requestCode_throttle[of "''user@example.com''" world_fresh "''user@example.com''" 6]
    requestCode_throttle[of "''user@example.com''" world_throttled "''user@example.com''" 0]
  by (simp add: MAX_ATTEMPTS_def world_throttled_def)

text \<open>
  Claim C5 as stated fails: with the medium down, the write of the OTP record returns
  false, yet \<open>generateOTPForEmail\<close> and \<open>startSignup\<close> report success; and the stored
  record with its five attempts is read as absent.
\<close>

theorem failed_write_reported_as_success:
  "\<not> available (storage world_down) \<and>
   otpStorage_save ''user@example.com'' (getOTPData ''user@example.com'' world_down) world_down =
     (False, world_down) \<and>
   g_success (fst (generateOTPForEmail ''user@example.com'' world_down)) \<and>
   st_success (fst (startSignup ''user@example.com'' world_down)) \<and>
   storage (snd (generateOTPForEmail ''user@example.com'' world_down)) = storage world_down \<and>
   otp_data_item (storage world_down) \<noteq> None \<and>
   storageService_getItem otp_data_item world_down = None \<and>
   od_attempts (getOTPData ''user@example.com'' world_down) = []"
proof -
  have a: "\<not> available (storage (snd (Date_now world_down)))"
    by simp
  have s: "st_success (fst (startSignup ''user@example.com'' world_down))"
    using generateOTPForEmail_unavailable(1)[OF a, of "''user@example.com''"]
    by (simp add: startSignup_def Let_def split_def addEvent_unavailable validateEmail_example)
  have n: "otp_data_item (storage world_down) \<noteq> None"
    by (simp add: world_throttled_def world_with_otp_def world_fresh_def storage_empty_def)
  from s n show ?thesis
    by (simp add: generateOTPForEmail_unavailable otpStorage_save_def storage_setItem_unavailable
        storageService_getItem_def getOTPData_unavailable)
qed

text \<open>
  Claim C5, as amended. While the medium rejects every call, \<open>setItem\<close> and the stores'
  saves return false and change nothing, \<open>getItem\<close> and the stores' reads return null
  or the empty object as for an absent key, and \<open>generateOTPForEmail\<close> and
  \<open>startSignup\<close> (for a valid email) report success although nothing was written.
\<close>

theorem storage_failure_reporting:
  assumes "\<not> available (storage w)"
  shows "storageService_setItem key_update v w = (False, w) \<and>
         otpStorage_save email d w = (False, w) \<and>
         parentStorage_save p w = (False, w) \<and>
         sessionStorage_save s w = (False, w) \<and>
         storageService_getItem key w = None \<and>
         otpStorage_getByEmail email w = None \<and>
         parentStorage_getByEmail email w = None \<and>
         sessionStorage_getAll w = [] \<and>
         g_success (fst (generateOTPForEmail email w)) \<and>
         storage (snd (generateOTPForEmail email w)) = storage w \<and>
         (v_valid (validateEmail email) \<longrightarrow> st_success (fst (startSignup email w)))"
proof -
  have a: "\<not> available (storage (snd (Date_now w)))"
    using assms by simp
  have "st_success (fst (startSignup email w))" if "v_valid (validateEmail email)"
    using that assms generateOTPForEmail_unavailable(1)[OF a, of email]
    by (simp add: startSignup_def Let_def split_def addEvent_unavailable)
  then show ?thesis
    using assms generateOTPForEmail_unavailable[OF assms, of email]
    by (simp add: storage_setItem_unavailable otpStorage_save_def parentStorage_save_def
        sessionStorage_save_def storageService_getItem_def otpStorage_getByEmail_def
        otpStorage_getAll_def parentStorage_getByEmail_def parentStorage_getAll_def
        sessionStorage_getAll_def Let_def)
qed

text \<open>
  The amended claim C5 on the world with the medium down.
\<close>

theorem storage_failure_reporting_witness:
  "\<not> available (storage world_down) \<and>
   storageService_setItem otp_data_item_update Map.empty world_down = (False, world_down) \<and>
   parentStorage_save ann world_down = (False, world_down) \<and>
   sessionStorage_save old_session world_down = (False, world_down) \<and>
   storageService_getItem otp_data_item world_down = None \<and>
   g_success (fst (generateOTPForEmail ''user@example.com'' world_down)) \<and>
   v_valid (validateEmail ''user@example.com'') \<and>
   st_success (fst (startSignup ''user@example.com'' world_down))"
  using storage_failure_reporting[of world_down otp_data_item_update Map.empty
      "''user@example.com''" "getOTPData ''user@example.com'' world_down" ann old_session
      otp_data_item]
  by (simp add: validateEmail_example)

text \<open>
  Claim C6. After a successful request that returned \<open>code\<close>, a verification with that
  code inside the validity window succeeds; the record then holds the appended attempt and
  no code and no generation instant, and the storage is the result of one
  \<open>otpStorage_save\<close> of that record; a second verification with the same code finds no
  code and changes nothing. The generation instant is assumed non-zero, since the source
  tests the stored instant for truthiness.
\<close>

theorem verifyCode_succeeds_once:
  assumes av: "available (storage w)"
    and mono: "clock_monotone w"
    and req: "g_otp (fst (generateOTPForEmail email w)) = Some code"
    and nz: "clock w 1 \<noteq> 0"
    and fresh: "clock w 2 - clock w 1 \<le> VALIDITY_MS"
  shows "fst (validateOTP email code (snd (generateOTPForEmail email w))) =
           \<lparr>v_valid = True, v_error = None\<rparr> \<and>
         getOTPData email (snd (validateOTP email code (snd (generateOTPForEmail email w)))) =
           (getOTPData email w)
             \<lparr>od_attempts := od_attempts (getOTPData email w) @
                 [\<lparr>att_otp = code, att_timestamp = clock w 2, att_success = True,
                   att_reason = None\<rparr>],
              od_currentOTP := None, od_otpGeneratedAt := None\<rparr> \<and>
         storage (snd (validateOTP email code (snd (generateOTPForEmail email w)))) =
           storage (snd (otpStorage_save email
             ((getOTPData email w)
               \<lparr>od_attempts := od_attempts (getOTPData email w) @
                   [\<lparr>att_otp = code, att_timestamp = clock w 2, att_success = True,
                     att_reason = None\<rparr>],
                od_currentOTP := None, od_otpGeneratedAt := None\<rparr>)
             (snd (generateOTPForEmail email w)))) \<and>
         validateOTP email code (snd (validateOTP email code (snd (generateOTPForEmail email w)))) =
           (\<lparr>v_valid = False, v_error = Some ''No OTP found. Please request a new one.''\<rparr>,
            snd (validateOTP email code (snd (generateOTPForEmail email w))))"
proof -
  let ?d = "getOTPData email w"
  let ?w1 = "snd (generateOTPForEmail email w)"
  have nt: "\<not> MAX_ATTEMPTS \<le> attempts_in_window (clock w 0) (od_attempts ?d)"
  proof
    assume "MAX_ATTEMPTS \<le> attempts_in_window (clock w 0) (od_attempts ?d)"
    then have "g_otp (fst (generateOTPForEmail email w)) = None"
      by (simp add: generateOTPForEmail_throttled)
    with req show False by simp
  qed
  have code: "code = Number_toString 10 (int (otp_draws w 0))"
    using req nt by (simp add: generateOTPForEmail_ok Let_def)
  then have code_ne: "code \<noteq> []"
    by (simp add: Number_toString_nonempty)
  let ?d1 = "?d\<lparr>od_currentOTP := Some code, od_otpGeneratedAt := Some (clock w 1)\<rparr>"
  have w1: "?w1 = snd (otpStorage_save email ?d1 (snd (Date_now (snd (generateOTP (snd (Date_now w)))))))"
    using nt code by (simp add: generateOTPForEmail_ok Let_def)
  have d1: "getOTPData email ?w1 = ?d1"
    unfolding w1 using av by (simp add: getOTPData_after_save)
  have clock1: "clock ?w1 n = clock w (Suc (Suc n))" for n
    unfolding w1 by simp
  have av1: "available (storage ?w1)"
    unfolding w1 using av by simp
  have live1: "live_code (getOTPData email ?w1)"
    using code_ne nz by (simp add: d1 live_code_def truthy_string_def truthy_number_def)
  have ne1: "\<not> code_expired (clock ?w1 0) (getOTPData email ?w1)"
    using fresh by (simp add: d1 clock1 code_expired_def ToNumber_def numeral_2_eq_2)
  have "clock w 0 \<le> clock w (0 + 3)"
    using mono by (rule clock_monotone_le)
  then have "attempts_in_window (clock w 3) (od_attempts ?d) \<le> attempts_in_window (clock w 0) (od_attempts ?d)"
    by (simp add: attempts_in_window_antimono)
  with nt have nt1: "\<not> MAX_ATTEMPTS \<le> attempts_in_window (clock ?w1 1) (od_attempts (getOTPData email ?w1))"
    by (simp add: d1 clock1 numeral_3_eq_3)
  have cur1: "od_currentOTP (getOTPData email ?w1) = Some code"
    by (simp add: d1)
  note v = validateOTP_valid[OF live1 ne1 nt1 cur1]
  let ?d2 = "?d\<lparr>od_attempts := od_attempts ?d @
                 [\<lparr>att_otp = code, att_timestamp = clock w 2, att_success = True,
                   att_reason = None\<rparr>],
              od_currentOTP := None, od_otpGeneratedAt := None\<rparr>"
  have d2eq: "(add_attempt \<lparr>att_otp = code, att_timestamp = clock ?w1 0, att_success = True,
                       att_reason = None\<rparr> (getOTPData email ?w1))
           \<lparr>od_currentOTP := None, od_otpGeneratedAt := None\<rparr> = ?d2"
    by (simp add: d1 clock1 add_attempt_def numeral_2_eq_2)
  let ?w2 = "snd (validateOTP email code ?w1)"
  have w2: "?w2 = snd (otpStorage_save email ?d2 (snd (Date_now (snd (Date_now ?w1)))))"
    by (simp add: v d2eq)
  have r1: "fst (validateOTP email code ?w1) = \<lparr>v_valid = True, v_error = None\<rparr>"
    by (simp add: v)
  have d2: "getOTPData email ?w2 = ?d2"
    unfolding w2 using av1 by (simp add: getOTPData_after_save)
  have st2: "storage ?w2 = storage (snd (otpStorage_save email ?d2 ?w1))"
    unfolding w2 by (simp add: otpStorage_save_def otpStorage_getAll_def storageService_getItem_def
      storageService_setItem_def Let_def)
  have "\<not> live_code (getOTPData email ?w2)"
    by (simp add: d2 live_code_def truthy_string_def)
  then have r2: "validateOTP email code ?w2 =
           (\<lparr>v_valid = False, v_error = Some ''No OTP found. Please request a new one.''\<rparr>, ?w2)"
    by (rule validateOTP_notfound)
  from r1 d2 st2 r2 show ?thesis by simp
qed

text \<open>
  Claim C6 on the empty store: request, verify, verify again.
\<close>

theorem verifyCode_succeeds_once_witness:
  "available (storage world_fresh) \<and> clock_monotone world_fresh \<and>
   g_otp (fst (generateOTPForEmail ''user@example.com'' world_fresh)) = Some ''482913'' \<and>
   fst (validateOTP ''user@example.com'' ''482913''
      (snd (generateOTPForEmail ''user@example.com'' world_fresh))) =
     \<lparr>v_valid = True, v_error = None\<rparr> \<and>
   fst (validateOTP ''user@example.com'' ''482913''
      (snd (validateOTP ''user@example.com'' ''482913''
         (snd (generateOTPForEmail ''user@example.com'' world_fresh))))) =
     \<lparr>v_valid = False, v_error = Some ''No OTP found. Please request a new one.''\<rparr>"
proof -
  have req: "g_otp (fst (generateOTPForEmail ''user@example.com'' world_fresh)) = Some ''482913''"
    by (simp add: generateOTPForEmail_ok MAX_ATTEMPTS_def Let_def)
  show ?thesis
    using verifyCode_succeeds_once[of world_fresh "''user@example.com''" "''482913''", OF _ _ req]
    by (simp add: req VALIDITY_MS_def)
qed




text \<open>
  Claim C8. For a session stored under a non-empty access token whose expiry instant is
  earlier than the reading of the clock, \<open>getSession\<close> returns null and the sessions
  object it leaves is the old one without that token.
\<close>

theorem getSession_expired_purged:
  assumes "available (storage w)" and "accessToken \<noteq> []"
    and "sessionStorage_getByToken accessToken w = Some s"
    and "clock w 0 > s_expiresAt s"
  shows "fst (getSession accessToken w) = None \<and>
         accessToken \<notin> fst ` set (sessionStorage_getAll (snd (getSession accessToken w))) \<and>
         sessionStorage_getByToken accessToken (snd (getSession accessToken w)) = None \<and>
         sessionStorage_getAll (snd (getSession accessToken w)) =
           AList.delete accessToken (sessionStorage_getAll w)"
proof -
  have g: "getSession accessToken w = (None, snd (sessionStorage_delete accessToken (snd (Date_now w))))"
    using assms by (simp add: getSession_def Let_def split_def)
  have all: "sessionStorage_getAll (snd (getSession accessToken w)) =
           AList.delete accessToken (sessionStorage_getAll w)"
    using assms(1) by (simp add: g sessions_after_delete)
  have "fst (getSession accessToken w) = None"
    by (simp add: g)
  then show ?thesis
    by (simp add: all sessionStorage_getByToken_def delete_notin_dom delete_conv')
qed

text \<open>
  Claim C8 on the store with one expired session.
\<close>

theorem getSession_expired_purged_witness:
  "available (storage world_with_session) \<and>
   sessionStorage_getByToken ''access_1690000000000_aaaaaaaaa'' world_with_session =
     Some old_session \<and>
   s_expiresAt old_session < clock world_with_session 0 \<and>
   fst (getSession ''access_1690000000000_aaaaaaaaa'' world_with_session) = None \<and>
   sessionStorage_getAll (snd (getSession ''access_1690000000000_aaaaaaaaa'' world_with_session)) = []"
  using getSession_expired_purged[of world_with_session "''access_1690000000000_aaaaaaaaa''" old_session]
  by (simp add: sessionStorage_getByToken_def old_session_def)

text \<open>
  Claim C9. For a live code generated at \<open>t\<close>, a verification read at
  \<open>t + 10 min + 1 ms\<close> returns "Code expired" and records a failed attempt with the reason
  "expired"; one read at \<open>t + 10 min - 1 ms\<close> is not rejected as expired; in general the
  outcome is "Code expired" exactly when the reading is later than \<open>t + 10 min\<close>.
\<close>

theorem validateOTP_expiry_boundary:
  assumes "available (storage w)"
    and "od_currentOTP (getOTPData email w) = Some code" and "code \<noteq> []"
    and "od_otpGeneratedAt (getOTPData email w) = Some t" and "t \<noteq> 0"
  shows "(clock w 0 = t + VALIDITY_MS + 1 \<longrightarrow>
            fst (validateOTP email inputOTP w) = \<lparr>v_valid = False, v_error = Some ''Code expired''\<rparr> \<and>
            od_attempts (getOTPData email (snd (validateOTP email inputOTP w))) =
              od_attempts (getOTPData email w) @
                [\<lparr>att_otp = inputOTP, att_timestamp = t + VALIDITY_MS + 1, att_success = False,
                  att_reason = Some ''expired''\<rparr>]) \<and>
         (clock w 0 = t + VALIDITY_MS - 1 \<longrightarrow>
            v_error (fst (validateOTP email inputOTP w)) \<noteq> Some ''Code expired'') \<and>
         (v_error (fst (validateOTP email inputOTP w)) = Some ''Code expired'' \<longleftrightarrow>
            clock w 0 > t + VALIDITY_MS)"
proof -
  let ?d = "getOTPData email w"
  have live: "live_code ?d"
    using assms by (simp add: live_code_def truthy_string_def truthy_number_def)
  have exp: "code_expired now ?d \<longleftrightarrow> now > t + VALIDITY_MS" for now
    using assms by (auto simp add: code_expired_def ToNumber_def)
  have iff: "v_error (fst (validateOTP email inputOTP w)) = Some ''Code expired'' \<longleftrightarrow>
            clock w 0 > t + VALIDITY_MS"
  proof (cases "code_expired (clock w 0) ?d")
    case True
    then show ?thesis using live exp by (simp add: validateOTP_expired)
  next
    case ne: False
    show ?thesis
    proof (cases "MAX_ATTEMPTS \<le> attempts_in_window (clock w 1) (od_attempts ?d)")
      case True
      then show ?thesis using live ne exp by (simp add: validateOTP_throttled)
    next
      case nt: False
      show ?thesis
      proof (cases "od_currentOTP ?d = Some inputOTP")
        case True
        then show ?thesis using live ne nt exp by (simp add: validateOTP_valid)
      next
        case False
        then show ?thesis using live ne nt exp by (simp add: validateOTP_invalid)
      qed
    qed
  qed
  have a: "clock w 0 = t + VALIDITY_MS + 1 \<longrightarrow>
            fst (validateOTP email inputOTP w) = \<lparr>v_valid = False, v_error = Some ''Code expired''\<rparr> \<and>
            od_attempts (getOTPData email (snd (validateOTP email inputOTP w))) =
              od_attempts (getOTPData email w) @
                [\<lparr>att_otp = inputOTP, att_timestamp = t + VALIDITY_MS + 1, att_success = False,
                  att_reason = Some ''expired''\<rparr>]"
  proof
    assume c: "clock w 0 = t + VALIDITY_MS + 1"
    then have "code_expired (clock w 0) ?d" by (simp add: exp)
    with live c assms(1) show "fst (validateOTP email inputOTP w) = \<lparr>v_valid = False, v_error = Some ''Code expired''\<rparr> \<and>
            od_attempts (getOTPData email (snd (validateOTP email inputOTP w))) =
              od_attempts (getOTPData email w) @
                [\<lparr>att_otp = inputOTP, att_timestamp = t + VALIDITY_MS + 1, att_success = False,
                  att_reason = Some ''expired''\<rparr>]"
      by (simp add: validateOTP_expired attempts_after_save add_attempt_def failed_attempt_def)
  qed
  from iff a show ?thesis by simp
qed

text \<open>
  Claim C9 at the two boundary instants.
\<close>

theorem validateOTP_expiry_boundary_witness:
  "available (storage (world_with_otp 1699999399999 [])) \<and>
   fst (validateOTP ''user@example.com'' ''482913'' (world_with_otp 1699999399999 [])) =
     \<lparr>v_valid = False, v_error = Some ''Code expired''\<rparr> \<and>
   od_attempts (getOTPData ''user@example.com''
      (snd (validateOTP ''user@example.com'' ''482913'' (world_with_otp 1699999399999 [])))) =
     [\<lparr>att_otp = ''482913'', att_timestamp = 1700000000000, att_success = False,
       att_reason = Some ''expired''\<rparr>] \<and>
   v_error (fst (validateOTP ''user@example.com'' ''482913'' (world_with_otp 1699999400001 []))) \<noteq>
     Some ''Code expired''"
  using validateOTP_expiry_boundary[of "world_with_otp 1699999399999 []" "''user@example.com''"
      "''482913''" 1699999399999 "''482913''"]
    validateOTP_expiry_boundary[of "world_with_otp 1699999400001 []" "''user@example.com''"
      "''482913''" 1699999400001 "''482913''"]
  by (simp add: VALIDITY_MS_def)

text \<open>
  Claim C10. For two emails with the same lower-case form, the reads, saves and deletes of
  the parent and OTP stores agree; with the medium available, a read under one spelling
  after a save under the other returns the saved record; and from a world whose two
  objects are lower-keyed, every sequence of calls leaves them lower-keyed, so that no two
  keys of either object share a lower-case form.
\<close>

theorem email_key_case_insensitive:
  assumes "toLowerCase e1 = toLowerCase e2"
  shows "parentStorage_getByEmail e1 w = parentStorage_getByEmail e2 w \<and>
         parentStorage_delete e1 w = parentStorage_delete e2 w \<and>
         otpStorage_getByEmail e1 w = otpStorage_getByEmail e2 w \<and>
         otpStorage_save e1 d w = otpStorage_save e2 d w \<and>
         otpStorage_delete e1 w = otpStorage_delete e2 w \<and>
         getOTPData e1 w = getOTPData e2 w \<and>
         (available (storage w) \<longrightarrow>
            otpStorage_getByEmail e2 (snd (otpStorage_save e1 d w)) = Some d) \<and>
         (available (storage w) \<and> toLowerCase (p_email p) = toLowerCase e1 \<longrightarrow>
            parentStorage_getByEmail e2 (snd (parentStorage_save p w)) = Some p) \<and>
         (keys_lowercase w \<longrightarrow>
            keys_lowercase (fold run_call calls w) \<and>
            inj_on toLowerCase (dom (parentStorage_getAll (fold run_call calls w))) \<and>
            inj_on toLowerCase (dom (otpStorage_getAll (fold run_call calls w))))"
proof (intro conjI impI)
  show "parentStorage_getByEmail e1 w = parentStorage_getByEmail e2 w"
    using assms by (simp add: parentStorage_getByEmail_def)
  show "parentStorage_delete e1 w = parentStorage_delete e2 w"
    using assms by (simp add: parentStorage_delete_def)
  show "otpStorage_getByEmail e1 w = otpStorage_getByEmail e2 w"
    using assms by (simp add: otpStorage_getByEmail_def)
  show "otpStorage_save e1 d w = otpStorage_save e2 d w"
    using assms by (simp add: otpStorage_save_def)
  show "otpStorage_delete e1 w = otpStorage_delete e2 w"
    using assms by (simp add: otpStorage_delete_def)
  show "getOTPData e1 w = getOTPData e2 w"
    using assms by (rule getOTPData_lower)
  show "otpStorage_getByEmail e2 (snd (otpStorage_save e1 d w)) = Some d"
    if "available (storage w)"
    using assms that
    by (simp add: otpStorage_getByEmail_def otpStorage_save_def otpStorage_getAll_def
        storageService_getItem_def storageService_setItem_def Let_def)
  show "parentStorage_getByEmail e2 (snd (parentStorage_save p w)) = Some p"
    if "available (storage w) \<and> toLowerCase (p_email p) = toLowerCase e1"
    using assms that
    by (simp add: parentStorage_getByEmail_def parentStorage_save_def parentStorage_getAll_def
        storageService_getItem_def storageService_setItem_def Let_def)
  assume "keys_lowercase w"
  then show k: "keys_lowercase (fold run_call calls w)"
    by (simp add: kl_fold)
  from k show "inj_on toLowerCase (dom (parentStorage_getAll (fold run_call calls w)))"
    by (rule keys_lowercase_inj)
  from k show "inj_on toLowerCase (dom (otpStorage_getAll (fold run_call calls w)))"
    by (rule keys_lowercase_inj)
qed

text \<open>
  Claim C10 for \<open>User@Example.COM\<close> and \<open>user@example.com\<close>.
\<close>

theorem email_key_case_insensitive_witness:
  "toLowerCase ''User@Example.COM'' = toLowerCase ''user@example.com'' \<and>
   otpStorage_getByEmail ''user@example.com''
     (snd (otpStorage_save ''User@Example.COM''
        (getOTPData ''user@example.com'' world_throttled) world_fresh)) =
     Some (getOTPData ''user@example.com'' world_throttled) \<and>
   parentStorage_getByEmail ''user@example.com'' (snd (parentStorage_save ann world_fresh)) =
     Some ann \<and>
   keys_lowercase world_fresh \<and>
   keys_lowercase (fold run_call
     [OtpSave ''User@Example.COM'' (getOTPData ''user@example.com'' world_throttled),
      ParentSave ann, CompleteSignup ''User@Example.COM'' ''482913''] world_fresh)"
proof -
  have k: "keys_lowercase world_fresh"
    by (simp add: keys_lowercase_def world_fresh_def storage_empty_def)
  have l: "toLowerCase ''User@Example.COM'' = toLowerCase ''user@example.com''"
    by (simp add: lower_example_mixed)
  have p: "toLowerCase (p_email ann) = toLowerCase ''User@Example.COM''"
    by (simp add: lower_example_mixed ann_def)
  have av: "available (storage world_fresh)"
    by simp
  note t = email_key_case_insensitive[OF l, of world_fresh
        "getOTPData ''user@example.com'' world_throttled" ann
        "[OtpSave ''User@Example.COM'' (getOTPData ''user@example.com'' world_throttled),
          ParentSave ann, CompleteSignup ''User@Example.COM'' ''482913'']"]
  from t av p k l show ?thesis
    by blast
qed

end
